theory Spec2Isabelle
  imports Main "HOL-Library.Word"
begin

unbundle bit_operations_syntax

section \<open>Configuration constants\<close>

text \<open>
  The streaming program keeps its configuration in globals. \<open>BUFFER_SIZE\<close> is the batch
  size of the publisher; the ring holds four times as many slots.
\<close>

definition BUFFER_SIZE :: nat where
  "BUFFER_SIZE = 1000"

definition MQTT_TOPIC_POSITION :: string where
  "MQTT_TOPIC_POSITION = ''microscope/stage/position''"

definition MQTT_TOPIC_RESULT :: string where
  "MQTT_TOPIC_RESULT = ''microscope/stage/result''"

definition MOSQ_ERR_SUCCESS :: int where
  "MOSQ_ERR_SUCCESS = 0"

section \<open>Position samples\<close>

text \<open>
  \<open>struct PositionSample\<close>: a 64-bit timestamp, four signed 32-bit positions and an
  8-bit validity mask (X=1, Y=2, Z=4, R=8). The default constructor zeroes every field.
\<close>

record PositionSample =
  timestamp_ns :: "64 word"
  x_position :: "32 word"
  y_position :: "32 word"
  z_position :: "32 word"
  r_position :: "32 word"
  valid_mask :: "8 word"

definition PositionSample_default :: PositionSample where
  "PositionSample_default =
     \<lparr>timestamp_ns = 0, x_position = 0, y_position = 0, z_position = 0,
      r_position = 0, valid_mask = 0\<rparr>"

section \<open>The lock-free ring\<close>

text \<open>
  \<open>class LockFreeBuffer\<close>: a \<open>std::array\<close> of \<open>BUFFER_SIZE * 4\<close> samples and two cursors.
  The cursors are \<open>size_t\<close> values that stay below the array size, so they are natural
  numbers here. \<open>buffer.size()\<close> is the constant \<open>ring_size\<close>.
\<close>

record LockFreeBuffer =
  buffer :: "PositionSample list"
  write_pos :: nat
  read_pos :: nat

definition ring_size :: nat where
  "ring_size = BUFFER_SIZE * 4"

definition LockFreeBuffer_init :: LockFreeBuffer where
  "LockFreeBuffer_init =
     \<lparr>buffer = replicate ring_size PositionSample_default, write_pos = 0, read_pos = 0\<rparr>"

text \<open>
  \<open>try_write\<close> returns \<open>false\<close> when the slot after the write cursor is the read cursor;
  otherwise it stores the sample at the write cursor and advances it.
\<close>

definition try_write :: "PositionSample \<Rightarrow> LockFreeBuffer \<Rightarrow> bool \<times> LockFreeBuffer" where
  "try_write sample b =
     (let current_write = write_pos b;
          next_write = (current_write + 1) mod ring_size
      in if next_write = read_pos b then (False, b)
         else (True, b\<lparr>buffer := (buffer b)[current_write := sample],
                        write_pos := next_write\<rparr>))"

text \<open>
  \<open>try_read\<close> returns \<open>false\<close> (here \<open>None\<close>) when both cursors agree; otherwise it
  copies the slot at the read cursor out and advances the read cursor.
\<close>

definition try_read :: "LockFreeBuffer \<Rightarrow> PositionSample option \<times> LockFreeBuffer" where
  "try_read b =
     (let current_read = read_pos b
      in if current_read = write_pos b then (None, b)
         else (Some (buffer b ! current_read),
               b\<lparr>read_pos := (current_read + 1) mod ring_size\<rparr>))"

definition available :: "LockFreeBuffer \<Rightarrow> nat" where
  "available b =
     (let w = write_pos b; r = read_pos b
      in if w \<ge> r then w - r else ring_size - r + w)"

text \<open>The ring is full when \<open>try_write\<close>'s test fires.\<close>

definition ring_full :: "LockFreeBuffer \<Rightarrow> bool" where
  "ring_full b = ((write_pos b + 1) mod ring_size = read_pos b)"

text \<open>
  The unread samples, oldest first: the slots from the read cursor up to the write
  cursor, wrapping at the end of the array.
\<close>

definition unread :: "LockFreeBuffer \<Rightarrow> PositionSample list" where
  "unread b =
     (if read_pos b \<le> write_pos b
      then take (write_pos b - read_pos b) (drop (read_pos b) (buffer b))
      else drop (read_pos b) (buffer b) @ take (write_pos b) (buffer b))"

definition ring_inv :: "LockFreeBuffer \<Rightarrow> bool" where
  "ring_inv b =
     (length (buffer b) = ring_size \<and> write_pos b < ring_size \<and> read_pos b < ring_size)"

section \<open>Formatting a sample\<close>

text \<open>
  \<open>FastStringBuffer\<close> converts integers by hand. Both converters fill a temporary array
  with the digits of the value, least significant first, in a loop that runs while the
  value is positive, and then copy the array out in reverse. \<open>temp_digits\<close> is that loop;
  on a positive value C's \<open>/\<close> and \<open>%\<close> agree with \<open>div\<close> and \<open>mod\<close>.
\<close>

definition digit_char :: "int \<Rightarrow> char" where
  "digit_char d = char_of (48 + d)"

function temp_digits :: "int \<Rightarrow> string" where
  "temp_digits v = (if v > 0 then digit_char (v mod 10) # temp_digits (v div 10) else [])"
  by pat_completeness auto
termination
  by (relation "measure nat") auto

declare temp_digits.simps [simp del]

definition uint64_to_string :: "64 word \<Rightarrow> string" where
  "uint64_to_string v = (if v = 0 then ''0'' else rev (temp_digits (uint v)))"

text \<open>
  \<open>int32_to_string\<close> writes a minus sign for a negative value and negates it in place
  (\<open>value = -value\<close>), then writes \<open>0\<close> for zero and the digits otherwise. The variable
  is an \<open>int32_t\<close>: negating the least value overflows, and C++ gives a program that
  does so no defined behaviour. What is printed then depends on how the program was
  built, so the result is \<open>None\<close> there; for every other value the negation is exact.
\<close>

definition int32_to_string :: "32 word \<Rightarrow> string option" where
  "int32_to_string v =
     (if sint v < 0 \<and> - sint v > 2147483647 then None
      else (let sign = (if sint v < 0 then ''-'' else []);
                v1 = (if sint v < 0 then - sint v else sint v)
            in if v1 = 0 then Some (sign @ ''0'')
               else Some (sign @ rev (temp_digits v1))))"

definition format_field :: "8 word \<Rightarrow> 8 word \<Rightarrow> 32 word \<Rightarrow> string option" where
  "format_field m b v = (if m AND b \<noteq> 0 then int32_to_string v else Some ''NaN'')"

text \<open>
  \<open>format_position\<close> writes the time stamp and the four fields, a slash between two of
  them. The line is defined when each of its fields is.
\<close>

definition format_position :: "PositionSample \<Rightarrow> string option" where
  "format_position sample =
     (case (format_field (valid_mask sample) 1 (x_position sample),
            format_field (valid_mask sample) 2 (y_position sample),
            format_field (valid_mask sample) 4 (z_position sample),
            format_field (valid_mask sample) 8 (r_position sample)) of
        (Some x, Some y, Some z, Some r) \<Rightarrow>
          Some (uint64_to_string (timestamp_ns sample) @ ''/'' @ x @ ''/'' @ y @ ''/'' @
                z @ ''/'' @ r)
      | _ \<Rightarrow> None)"

section \<open>Global state and the outside world\<close>

text \<open>
  \<open>struct ControllerInfo\<close>. The two controller slots are a \<open>std::array\<close> indexed only by
  the constants 0 and 1, and the axis flags one indexed only by 0, 1 and 2; both are
  total functions of the index here.
\<close>

record ControllerInfo =
  handle :: int
  ctrl_id :: int
  connected :: bool
  axes_connected :: "nat \<Rightarrow> bool"

text \<open>
  What the program hands to the outside: a message passed to \<open>mosquitto_publish\<close>
  (topic, payload, quality of service) and a driver call that writes to a device
  (handle, axis, value; the driver's set flag is 1). The payload of a position batch is
  \<open>None\<close> when the formatting of one of its samples is not defined.
\<close>

datatype mqtt_message =
    Publish string string nat
  | Publish_batch string "string option" nat

datatype ecc_call =
    Call_controlAmplitude int int "32 word"
  | Call_controlFrequency int int "32 word"
  | Call_controlTargetPosition int int "32 word"
  | Call_controlMove int int "32 word"

text \<open>
  The globals of the program. The three totals are \<open>uint64_t\<close> counters; they are
  natural numbers here, their wrap-around at \<open>2 ^ 64\<close> being out of reach of any run.
  \<open>mqtt_log\<close> and \<open>ecc_log\<close> record, in order, the messages passed to the bus client and
  the writing driver calls made.
\<close>

record globals =
  g_sample_rate_hz :: int
  g_sample_interval_ns :: int
  g_running :: bool
  g_controllers_connected :: bool
  g_mqtt_connected :: bool
  g_command_queue :: "string list"
  g_position_buffer :: LockFreeBuffer
  g_controllers :: "nat \<Rightarrow> ControllerInfo"
  g_total_captured :: nat
  g_total_published :: nat
  g_total_dropped :: nat
  mqtt_log :: "mqtt_message list"
  ecc_log :: "ecc_call list"

text \<open>
  What the outside answers at one moment: the driver's return codes (and the position it
  reports), the bus client's return code for a position batch, the clock, and the text
  of the status report, which the dispatcher assembles from driver queries that read only.
\<close>

record world =
  ECC_getPosition :: "int \<Rightarrow> int \<Rightarrow> int \<times> 32 word"
  ECC_controlAmplitude :: "int \<Rightarrow> int \<Rightarrow> 32 word \<Rightarrow> int"
  ECC_controlFrequency :: "int \<Rightarrow> int \<Rightarrow> 32 word \<Rightarrow> int"
  ECC_controlTargetPosition :: "int \<Rightarrow> int \<Rightarrow> 32 word \<Rightarrow> int"
  ECC_controlMove :: "int \<Rightarrow> int \<Rightarrow> 32 word \<Rightarrow> int"
  mosquitto_publish_position :: int
  get_nanosecond_timestamp :: "64 word"
  status_text :: string

text \<open>
  The globals as \<open>main\<close> finds them once the bus client has connected and the
  controllers in \<open>ctrls\<close> have been found, when it starts the three threads: 80 Hz, the
  interval derived from it, an empty ring and queue, counters at zero.
\<close>

definition globals_start :: "(nat \<Rightarrow> ControllerInfo) \<Rightarrow> globals" where
  "globals_start ctrls =
     \<lparr>g_sample_rate_hz = 80, g_sample_interval_ns = 1000000000 div 80,
      g_running = True, g_controllers_connected = True, g_mqtt_connected = True,
      g_command_queue = [], g_position_buffer = LockFreeBuffer_init,
      g_controllers = ctrls,
      g_total_captured = 0, g_total_published = 0, g_total_dropped = 0,
      mqtt_log = [], ecc_log = []\<rparr>"

section \<open>The sampler\<close>

text \<open>
  \<open>read_all_positions_fast\<close>: controller 0 gives X from axis 0, Y from axis 1 and Z from
  axis 2; controller 1 gives R from axis 0. A position is stored, and its bit set, when
  the axis is connected and the driver returns 0.
\<close>

definition read_all_positions_fast :: "world \<Rightarrow> globals \<Rightarrow> PositionSample" where
  "read_all_positions_fast w g =
     (let s0 = PositionSample_default\<lparr>timestamp_ns := get_nanosecond_timestamp w\<rparr>;
          c0 = g_controllers g 0;
          c1 = g_controllers g 1;
          sx = (if connected c0 \<and> axes_connected c0 0 \<and>
                   fst (ECC_getPosition w (handle c0) 0) = 0
                then s0\<lparr>x_position := snd (ECC_getPosition w (handle c0) 0),
                        valid_mask := valid_mask s0 OR 1\<rparr>
                else s0);
          sy = (if connected c0 \<and> axes_connected c0 1 \<and>
                   fst (ECC_getPosition w (handle c0) 1) = 0
                then sx\<lparr>y_position := snd (ECC_getPosition w (handle c0) 1),
                        valid_mask := valid_mask sx OR 2\<rparr>
                else sx);
          sz = (if connected c0 \<and> axes_connected c0 2 \<and>
                   fst (ECC_getPosition w (handle c0) 2) = 0
                then sy\<lparr>z_position := snd (ECC_getPosition w (handle c0) 2),
                        valid_mask := valid_mask sy OR 4\<rparr>
                else sy)
      in if connected c1 \<and> axes_connected c1 0 \<and>
            fst (ECC_getPosition w (handle c1) 0) = 0
         then sz\<lparr>r_position := snd (ECC_getPosition w (handle c1) 0),
                 valid_mask := valid_mask sz OR 8\<rparr>
         else sz)"

text \<open>
  The locals of \<open>high_speed_sampler_thread\<close>. \<open>target_interval\<close> is a \<open>const\<close> initialised
  from \<open>g_sample_interval_ns\<close> before the loop is entered.
\<close>

record sampler_locals =
  target_interval :: int
  next_sample_time :: int
  sample_count :: nat
  dropped_count :: nat
  debug_counter :: nat

definition sampler_start :: "globals \<Rightarrow> int \<Rightarrow> sampler_locals" where
  "sampler_start g now =
     \<lparr>target_interval = g_sample_interval_ns g, next_sample_time = now,
      sample_count = 0, dropped_count = 0, debug_counter = 0\<rparr>"

text \<open>
  One pass of the sampler's loop body: read a sample, try to write it to the ring, count
  it as captured or as dropped, and move the deadline on by \<open>target_interval\<close>. The wait
  for the deadline changes no variable.
\<close>

definition sampler_tick :: "world \<Rightarrow> sampler_locals \<times> globals \<Rightarrow> sampler_locals \<times> globals" where
  "sampler_tick w = (\<lambda>(l, g).
     let sample = read_all_positions_fast w g;
         l1 = l\<lparr>debug_counter := debug_counter l + 1\<rparr>;
         (l2, g2) =
           (case try_write sample (g_position_buffer g) of
              (True, b') \<Rightarrow>
                (l1\<lparr>sample_count := sample_count l1 + 1\<rparr>,
                 g\<lparr>g_position_buffer := b', g_total_captured := g_total_captured g + 1\<rparr>)
            | (False, b') \<Rightarrow>
                (l1\<lparr>dropped_count := dropped_count l1 + 1\<rparr>,
                 g\<lparr>g_total_dropped := g_total_dropped g + 1\<rparr>))
     in (l2\<lparr>next_sample_time := next_sample_time l2 + target_interval l2\<rparr>, g2))"

text \<open>The loop runs the body while both flags are set.\<close>

definition sampler_iteration :: "world \<Rightarrow> sampler_locals \<times> globals \<Rightarrow> sampler_locals \<times> globals" where
  "sampler_iteration w = (\<lambda>(l, g).
     if g_running g \<and> g_controllers_connected g then sampler_tick w (l, g) else (l, g))"

section \<open>The publisher\<close>

text \<open>
  The inner loop of \<open>batch_publisher_thread\<close> reads from the ring while the batch holds
  fewer than \<open>BUFFER_SIZE\<close> samples and \<open>try_read\<close> succeeds.
\<close>

function collect_batch ::
  "PositionSample list \<Rightarrow> LockFreeBuffer \<Rightarrow> PositionSample list \<times> LockFreeBuffer" where
  "collect_batch batch b =
     (if length batch < BUFFER_SIZE
      then (case try_read b of
              (Some sample, b') \<Rightarrow> collect_batch (batch @ [sample]) b'
            | (None, b') \<Rightarrow> (batch, b'))
      else (batch, b))"
  by pat_completeness auto
termination
  by (relation "measure (\<lambda>(batch, b). BUFFER_SIZE - length batch)") auto

declare collect_batch.simps [simp del]

text \<open>The batch message: the formatted samples, a newline between two of them.\<close>

fun batch_msg :: "PositionSample list \<Rightarrow> string option" where
  "batch_msg [] = Some []"
| "batch_msg [s] = format_position s"
| "batch_msg (s # t) =
     (case (format_position s, batch_msg t) of
        (Some line, Some rest) \<Rightarrow> Some (line @ [CHR 0x0A] @ rest)
      | _ \<Rightarrow> None)"

record publisher_locals =
  published_count :: nat
  batch_count :: nat

text \<open>
  One pass of the publisher's loop body. A non-empty batch is published when the bus is
  connected; the counters grow by the batch size when the bus client returns success.
  The batch is cleared in every case.
\<close>

definition publisher_period ::
  "world \<Rightarrow> publisher_locals \<times> globals \<Rightarrow> publisher_locals \<times> globals" where
  "publisher_period w = (\<lambda>(l, g).
     let (batch, b') = collect_batch [] (g_position_buffer g);
         g1 = g\<lparr>g_position_buffer := b'\<rparr>
     in if batch \<noteq> []
        then (let l1 = l\<lparr>batch_count := batch_count l + 1\<rparr>
              in if g_mqtt_connected g1
                 then (let g2 = g1\<lparr>mqtt_log := mqtt_log g1 @
                                      [Publish_batch MQTT_TOPIC_POSITION (batch_msg batch) 0]\<rparr>
                       in if mosquitto_publish_position w = MOSQ_ERR_SUCCESS
                          then (l1\<lparr>published_count := published_count l1 + length batch\<rparr>,
                                g2\<lparr>g_total_published := g_total_published g2 + length batch\<rparr>)
                          else (l1, g2))
                 else (l1, g1))
        else (l, g1))"

section \<open>Reading a command\<close>

text \<open>
  The dispatcher tests \<open>cmd.find(p) == 0\<close>: the command starts with \<open>p\<close>.
\<close>

definition starts_with :: "string \<Rightarrow> string \<Rightarrow> bool" where
  "starts_with p s = (take (length p) s = p)"

text \<open>
  A \<open>std::istringstream\<close>: the characters not yet read and the two state bits the code
  depends on. \<open>std::getline\<close> fails at once on a stream that is not good. Otherwise it
  extracts characters up to the delimiter, which it consumes and does not store; when it
  meets the end of the input instead it sets \<open>eofbit\<close>, and \<open>failbit\<close> too when it has
  extracted nothing. The stream converts to \<open>true\<close> when \<open>failbit\<close> is clear.
\<close>

record istringstream =
  chars :: string
  eofbit :: bool
  failbit :: bool

definition istringstream_of :: "string \<Rightarrow> istringstream" where
  "istringstream_of s = \<lparr>chars = s, eofbit = False, failbit = False\<rparr>"

definition getline :: "istringstream \<Rightarrow> char \<Rightarrow> istringstream \<times> string" where
  "getline iss delim =
     (if eofbit iss \<or> failbit iss then (iss\<lparr>failbit := True\<rparr>, [])
      else (case dropWhile (\<lambda>c. c \<noteq> delim) (chars iss) of
              [] \<Rightarrow> (\<lparr>chars = [], eofbit = True, failbit = (chars iss = [])\<rparr>, chars iss)
            | d # r \<Rightarrow> (iss\<lparr>chars := r\<rparr>, takeWhile (\<lambda>c. c \<noteq> delim) (chars iss))))"

text \<open>
  \<open>getline(iss, a, '/') && getline(iss, b)\<close>, the test of SET\_RATE and STOP, and
  \<open>getline(iss, a, '/') && getline(iss, b, '/') && getline(iss, c)\<close>, the test of
  SET\_AMP, SET\_FREQ and MOVE. The last call has the default delimiter, a newline.
  \<open>None\<close> is the branch taken when the test fails.
\<close>

definition getline2 :: "string \<Rightarrow> (string \<times> string) option" where
  "getline2 cmd =
     (let (iss1, a) = getline (istringstream_of cmd) CHR ''/''
      in if failbit iss1 then None
         else (let (iss2, b) = getline iss1 (CHR 0x0A)
               in if failbit iss2 then None else Some (a, b)))"

definition getline3 :: "string \<Rightarrow> (string \<times> string \<times> string) option" where
  "getline3 cmd =
     (let (iss1, a) = getline (istringstream_of cmd) CHR ''/''
      in if failbit iss1 then None
         else (let (iss2, b) = getline iss1 CHR ''/''
               in if failbit iss2 then None
                  else (let (iss3, c) = getline iss2 (CHR 0x0A)
                        in if failbit iss3 then None else Some (a, b, c))))"

text \<open>
  \<open>std::atoi\<close> is the C library's \<open>strtol\<close> in base 10 with its result converted to
  \<open>int\<close>. \<open>strtol\<close> skips white space, reads an optional sign and then the decimal
  digits that follow; anything else ends the number, and no digit at all gives 0. A
  number beyond the range of \<open>long\<close> (64 bits on the platform of the program) gives the
  nearest end of that range. The conversion to \<open>int\<close> keeps the low 32 bits.
\<close>

definition isspace :: "char \<Rightarrow> bool" where
  "isspace c = (c = CHR '' '' \<or> (9 \<le> (of_char c :: nat) \<and> (of_char c :: nat) \<le> 13))"

definition isdigit :: "char \<Rightarrow> bool" where
  "isdigit c = (48 \<le> (of_char c :: nat) \<and> (of_char c :: nat) \<le> 57)"

fun atoi_digits :: "string \<Rightarrow> int \<Rightarrow> int" where
  "atoi_digits [] acc = acc"
| "atoi_digits (c # cs) acc =
     (if isdigit c then atoi_digits cs (acc * 10 + (of_char c - 48)) else acc)"

definition number_read :: "string \<Rightarrow> int" where
  "number_read s =
     (case dropWhile isspace s of
        [] \<Rightarrow> 0
      | c # cs \<Rightarrow>
          if c = CHR ''-'' then - atoi_digits cs 0
          else if c = CHR ''+'' then atoi_digits cs 0
          else atoi_digits (c # cs) 0)"

definition strtol :: "string \<Rightarrow> int" where
  "strtol s = max (- 9223372036854775808) (min 9223372036854775807 (number_read s))"

definition atoi :: "string \<Rightarrow> int" where
  "atoi s = sint (word_of_int (strtol s) :: 32 word)"

section \<open>The dispatcher\<close>

text \<open>
  The chain of comparisons that maps an axis name to a controller slot and an axis
  index. It stands, letter for letter the same, in the handlers of SET\_AMP, SET\_FREQ,
  MOVE and STOP. The result is \<open>(controller, axis, valid_axis)\<close>.
\<close>

definition map_axis :: "string \<Rightarrow> int \<times> int \<times> bool" where
  "map_axis axis_str =
     (if axis_str = ''X'' then (0, 0, True)
      else if axis_str = ''Y'' then (0, 1, True)
      else if axis_str = ''Z'' then (0, 2, True)
      else if axis_str = ''R'' then (1, 0, True)
      else (-1, -1, False))"

text \<open>\<open>get_axis_name\<close>, which the status report uses to label an axis.\<close>

definition get_axis_name :: "int \<Rightarrow> int \<Rightarrow> string" where
  "get_axis_name controller axis =
     (if controller = 0
      then (if axis = 0 then ''X''
            else if axis = 1 then ''Y''
            else if axis = 2 then ''Z''
            else ''UNKNOWN'')
      else if controller = 1 \<and> axis = 0 then ''R''
      else ''UNKNOWN'')"

text \<open>\<open>std::to_string\<close> of the clock value: its decimal digits.\<close>

definition to_string :: "64 word \<Rightarrow> string" where
  "to_string v = uint64_to_string v"

text \<open>
  Every result the dispatcher publishes is built and sent by the same four lines, under
  the same guard: when the bus is connected, the clock value and the text are joined and
  passed to \<open>mosquitto_publish\<close> on the result topic with quality of service 1.
\<close>

definition publish_result :: "world \<Rightarrow> string \<Rightarrow> globals \<Rightarrow> globals" where
  "publish_result w text g =
     (if g_mqtt_connected g
      then g\<lparr>mqtt_log := mqtt_log g @
               [Publish MQTT_TOPIC_RESULT (to_string (get_nanosecond_timestamp w) @ text) 1]\<rparr>
      else g)"

definition ecc_call_made :: "ecc_call \<Rightarrow> globals \<Rightarrow> globals" where
  "ecc_call_made c g = g\<lparr>ecc_log := ecc_log g @ [c]\<rparr>"

definition handle_STATUS :: "world \<Rightarrow> globals \<Rightarrow> globals" where
  "handle_STATUS w g = publish_result w (''/STATUS/SYSTEM_INFO/ALL/SUCCESS/'' @ status_text w) g"

definition handle_SET_RATE :: "world \<Rightarrow> string \<Rightarrow> globals \<Rightarrow> globals" where
  "handle_SET_RATE w cmd g =
     (case getline2 cmd of
        None \<Rightarrow> g
      | Some (rate_cmd, rate_str) \<Rightarrow>
          (let new_rate = atoi rate_str
           in if new_rate \<ge> 100 \<and> new_rate \<le> 15000
              then publish_result w
                     (''/COMMAND/SET_RATE/ALL/SUCCESS/Sampling rate set to '' @ rate_str @ '' Hz'')
                     (g\<lparr>g_sample_rate_hz := new_rate,
                        g_sample_interval_ns := 1000000000 div new_rate\<rparr>)
              else publish_result w
                     ''/COMMAND/SET_RATE/ALL/FAILED/Invalid rate (must be 100-15000 Hz)'' g))"

definition handle_SET_AMP :: "world \<Rightarrow> string \<Rightarrow> globals \<Rightarrow> globals" where
  "handle_SET_AMP w cmd g =
     (case getline3 cmd of
        None \<Rightarrow> g
      | Some (amp_cmd, axis_str, amp_str) \<Rightarrow>
          (let amplitude = (word_of_int (atoi amp_str) :: 32 word);
               (controller, axis, valid_axis) = map_axis axis_str
           in if valid_axis \<and> controller \<ge> 0 \<and> axis \<ge> 0
              then (let c = g_controllers g (nat controller)
                    in if connected c \<and> axes_connected c (nat axis)
                       then (let result = ECC_controlAmplitude w (handle c) axis amplitude;
                                 g1 = ecc_call_made (Call_controlAmplitude (handle c) axis amplitude) g
                             in if result = 0
                                then publish_result w
                                       (''/COMMAND/SET_AMP/'' @ axis_str @
                                        ''/SUCCESS/Amplitude set to '' @ amp_str @ '' mV'') g1
                                else publish_result w
                                       (''/COMMAND/SET_AMP/'' @ axis_str @
                                        ''/FAILED/Failed to set amplitude'') g1)
                       else g)
              else g))"

definition handle_SET_FREQ :: "world \<Rightarrow> string \<Rightarrow> globals \<Rightarrow> globals" where
  "handle_SET_FREQ w cmd g =
     (case getline3 cmd of
        None \<Rightarrow> g
      | Some (freq_cmd, axis_str, freq_str) \<Rightarrow>
          (let frequency = (word_of_int (atoi freq_str) :: 32 word);
               (controller, axis, valid_axis) = map_axis axis_str
           in if valid_axis \<and> controller \<ge> 0 \<and> axis \<ge> 0
              then (let c = g_controllers g (nat controller)
                    in if connected c \<and> axes_connected c (nat axis)
                       then (let result = ECC_controlFrequency w (handle c) axis frequency;
                                 g1 = ecc_call_made (Call_controlFrequency (handle c) axis frequency) g
                             in if result = 0
                                then publish_result w
                                       (''/COMMAND/SET_FREQ/'' @ axis_str @
                                        ''/SUCCESS/Frequency set to '' @ freq_str @ '' mHz'') g1
                                else publish_result w
                                       (''/COMMAND/SET_FREQ/'' @ axis_str @
                                        ''/FAILED/Failed to set frequency'') g1)
                       else g)
              else g))"

text \<open>
  MOVE sets the target position and, when the driver accepts it, enables movement with
  a second call. Each of the five outcomes publishes its own result; a command whose
  three fields cannot be read publishes none.
\<close>

definition handle_MOVE :: "world \<Rightarrow> string \<Rightarrow> globals \<Rightarrow> globals" where
  "handle_MOVE w cmd g =
     (case getline3 cmd of
        None \<Rightarrow> g
      | Some (move_cmd, axis_str, pos_str) \<Rightarrow>
          (let target_position = (word_of_int (atoi pos_str) :: 32 word);
               (controller, axis, valid_axis) = map_axis axis_str
           in if valid_axis \<and> controller \<ge> 0 \<and> axis \<ge> 0
              then (let c = g_controllers g (nat controller)
                    in if connected c \<and> axes_connected c (nat axis)
                       then (let result1 = ECC_controlTargetPosition w (handle c) axis target_position;
                                 g1 = ecc_call_made
                                        (Call_controlTargetPosition (handle c) axis target_position) g
                             in if result1 = 0
                                then (let result2 = ECC_controlMove w (handle c) axis 1;
                                          g2 = ecc_call_made (Call_controlMove (handle c) axis 1) g1
                                      in if result2 = 0
                                         then publish_result w
                                                (''/COMMAND/MOVE/'' @ axis_str @
                                                 ''/SUCCESS/Movement started to '' @ pos_str) g2
                                         else publish_result w
                                                (''/COMMAND/MOVE/'' @ axis_str @
                                                 ''/FAILED/Failed to enable movement'') g2)
                                else publish_result w
                                       (''/COMMAND/MOVE/'' @ axis_str @
                                        ''/FAILED/Failed to set target position'') g1)
                       else publish_result w
                              (''/COMMAND/MOVE/'' @ axis_str @ ''/FAILED/Axis not connected'') g)
              else publish_result w
                     (''/COMMAND/MOVE/'' @ axis_str @ ''/FAILED/Invalid axis name'') g))"

definition handle_STOP :: "world \<Rightarrow> string \<Rightarrow> globals \<Rightarrow> globals" where
  "handle_STOP w cmd g =
     (case getline2 cmd of
        None \<Rightarrow> g
      | Some (stop_cmd, axis_str) \<Rightarrow>
          (let (controller, axis, valid_axis) = map_axis axis_str
           in if valid_axis \<and> controller \<ge> 0 \<and> axis \<ge> 0
              then (let c = g_controllers g (nat controller)
                    in if connected c \<and> axes_connected c (nat axis)
                       then (let result = ECC_controlMove w (handle c) axis 0;
                                 g1 = ecc_call_made (Call_controlMove (handle c) axis 0) g
                             in if result = 0
                                then publish_result w
                                       (''/COMMAND/STOP/'' @ axis_str @ ''/SUCCESS/Movement stopped'') g1
                                else publish_result w
                                       (''/COMMAND/STOP/'' @ axis_str @
                                        ''/FAILED/Failed to stop movement'') g1)
                       else g)
              else g))"

text \<open>
  The chain that selects the handler. A command that is none of the six is reported on
  the console only.
\<close>

definition process_command :: "world \<Rightarrow> string \<Rightarrow> globals \<Rightarrow> globals" where
  "process_command w cmd g =
     (if cmd = ''STATUS'' then handle_STATUS w g
      else if starts_with ''SET_RATE/'' cmd then handle_SET_RATE w cmd g
      else if starts_with ''SET_AMP/'' cmd then handle_SET_AMP w cmd g
      else if starts_with ''SET_FREQ/'' cmd then handle_SET_FREQ w cmd g
      else if starts_with ''MOVE/'' cmd then handle_MOVE w cmd g
      else if starts_with ''STOP/'' cmd then handle_STOP w cmd g
      else g)"

text \<open>
  One pass of the loop of \<open>command_processor_thread\<close>: take the command at the front of
  the queue, if there is one, and process it.
\<close>

definition command_processor_iteration :: "world \<Rightarrow> globals \<Rightarrow> globals" where
  "command_processor_iteration w g =
     (case g_command_queue g of
        [] \<Rightarrow> g
      | cmd # rest \<Rightarrow> process_command w cmd (g\<lparr>g_command_queue := rest\<rparr>))"

section \<open>The bus callbacks\<close>

text \<open>
  \<open>mqtt_on_message\<close> returns at once on a null payload and otherwise pushes the payload
  onto the command queue. \<open>mqtt_on_connect\<close> sets the connection flag when the result
  is 0, and \<open>mqtt_on_disconnect\<close> clears it.
\<close>

definition mqtt_on_message :: "string option \<Rightarrow> globals \<Rightarrow> globals" where
  "mqtt_on_message payload g =
     (case payload of
        None \<Rightarrow> g
      | Some p \<Rightarrow> g\<lparr>g_command_queue := g_command_queue g @ [p]\<rparr>)"

definition mqtt_on_connect :: "int \<Rightarrow> globals \<Rightarrow> globals" where
  "mqtt_on_connect result g = (if result = 0 then g\<lparr>g_mqtt_connected := True\<rparr> else g)"

definition mqtt_on_disconnect :: "globals \<Rightarrow> globals" where
  "mqtt_on_disconnect g = g\<lparr>g_mqtt_connected := False\<rparr>"

section \<open>Runs\<close>

text \<open>
  A run of the program is a sequence of events, each one pass of a thread's loop body or
  one bus callback, with what the outside answers during it. The state holds the locals
  of the sampler and of the publisher beside the globals.
\<close>

datatype event =
    SamplerTick world
  | PublisherPeriod world
  | CommandIteration world
  | OnMessage "string option"
  | OnConnect int
  | OnDisconnect

type_synonym system = "sampler_locals \<times> publisher_locals \<times> globals"

fun step :: "system \<Rightarrow> event \<Rightarrow> system" where
  "step (sl, pl, g) (SamplerTick w) =
     (let (sl', g') = sampler_iteration w (sl, g) in (sl', pl, g'))"
| "step (sl, pl, g) (PublisherPeriod w) =
     (let (pl', g') = publisher_period w (pl, g) in (sl, pl', g'))"
| "step (sl, pl, g) (CommandIteration w) = (sl, pl, command_processor_iteration w g)"
| "step (sl, pl, g) (OnMessage payload) = (sl, pl, mqtt_on_message payload g)"
| "step (sl, pl, g) (OnConnect result) = (sl, pl, mqtt_on_connect result g)"
| "step (sl, pl, g) OnDisconnect = (sl, pl, mqtt_on_disconnect g)"

definition system_start :: "(nat \<Rightarrow> ControllerInfo) \<Rightarrow> int \<Rightarrow> system" where
  "system_start ctrls now =
     (sampler_start (globals_start ctrls) now,
      \<lparr>published_count = 0, batch_count = 0\<rparr>,
      globals_start ctrls)"

definition run :: "system \<Rightarrow> event list \<Rightarrow> system" where
  "run s evs = foldl step s evs"

text \<open>
  An event that loses no batch: a publisher pass during which the bus client returns
  success, or any event other than a disconnection.
\<close>

fun delivers :: "event \<Rightarrow> bool" where
  "delivers (PublisherPeriod w) = (mosquitto_publish_position w = MOSQ_ERR_SUCCESS)"
| "delivers OnDisconnect = False"
| "delivers e = True"

text \<open>
  What the dispatcher leaves alone: the ring, the three totals, the flags, the queue and
  the controller table.
\<close>

definition dispatcher_frame :: "globals \<Rightarrow> globals \<Rightarrow> bool" where
  "dispatcher_frame g g' =
     (g_position_buffer g' = g_position_buffer g \<and>
      g_total_captured g' = g_total_captured g \<and>
      g_total_published g' = g_total_published g \<and>
      g_total_dropped g' = g_total_dropped g \<and>
      g_mqtt_connected g' = g_mqtt_connected g \<and>
      g_running g' = g_running g \<and>
      g_controllers_connected g' = g_controllers_connected g \<and>
      g_command_queue g' = g_command_queue g \<and>
      g_controllers g' = g_controllers g)"

text \<open>
  A controller table and an outside for concrete runs: no controller connected (the
  initial value of each slot), and a driver and a bus client that return 0 throughout,
  at clock value 0.
\<close>

definition no_controllers :: "nat \<Rightarrow> ControllerInfo" where
  "no_controllers = (\<lambda>i. \<lparr>handle = -1, ctrl_id = -1, connected = False,
                           axes_connected = (\<lambda>a. False)\<rparr>)"

definition calm_world :: world where
  "calm_world =
     \<lparr>ECC_getPosition = (\<lambda>h a. (0, 0)),
      ECC_controlAmplitude = (\<lambda>h a v. 0),
      ECC_controlFrequency = (\<lambda>h a v. 0),
      ECC_controlTargetPosition = (\<lambda>h a v. 0),
      ECC_controlMove = (\<lambda>h a v. 0),
      mosquitto_publish_position = 0,
      get_nanosecond_timestamp = 0,
      status_text = []\<rparr>"

text \<open>
  Two properties of a state of the run. \<open>counts_inv\<close>: the cursors are in range, the
  samples published and the samples in the ring are at most the samples captured, and
  every pass of the sampler counted its sample as captured or as dropped.
  \<open>counts_exact\<close>: the bus is connected and every captured sample is published or in
  the ring.
\<close>

definition counts_inv :: "system \<Rightarrow> bool" where
  "counts_inv = (\<lambda>(sl, pl, g).
     ring_inv (g_position_buffer g) \<and>
     g_total_published g + available (g_position_buffer g) \<le> g_total_captured g \<and>
     g_total_captured g + g_total_dropped g = debug_counter sl)"

definition counts_exact :: "system \<Rightarrow> bool" where
  "counts_exact = (\<lambda>(sl, pl, g).
     g_mqtt_connected g \<and>
     g_total_captured g = g_total_published g + available (g_position_buffer g))"

text \<open>The ring alone, under a sequence of its two operations.\<close>

datatype ring_op = Write PositionSample | Read

fun ring_step :: "LockFreeBuffer \<Rightarrow> ring_op \<Rightarrow> LockFreeBuffer" where
  "ring_step b (Write sample) = snd (try_write sample b)"
| "ring_step b Read = snd (try_read b)"

definition ring_run :: "ring_op list \<Rightarrow> LockFreeBuffer" where
  "ring_run ops = foldl ring_step LockFreeBuffer_init ops"

section \<open>Notions used in the statements\<close>

text \<open>
  The decimal representation of a number, as the specification's ``ASCII decimal
  integer'' has it: the digits, most significant first, with no leading zero, and a
  minus sign before the digits of a negative number.
\<close>

fun decimal_nat :: "nat \<Rightarrow> string" where
  "decimal_nat n =
     (if n < 10 then [char_of (48 + n)]
      else decimal_nat (n div 10) @ [char_of (48 + n mod 10)])"

declare decimal_nat.simps [simp del]

definition decimal_int :: "int \<Rightarrow> string" where
  "decimal_int i = (if i < 0 then CHR ''-'' # decimal_nat (nat (- i)) else decimal_nat (nat i))"

text \<open>
  A token has a leading integer, one that \<open>atoi\<close> can read, when a digit follows its
  leading white space and optional sign.
\<close>

definition leading_integer :: "string \<Rightarrow> bool" where
  "leading_integer s =
     (case dropWhile isspace s of
        [] \<Rightarrow> False
      | c # cs \<Rightarrow>
          if c = CHR ''-'' \<or> c = CHR ''+''
          then (case cs of [] \<Rightarrow> False | d # ds \<Rightarrow> isdigit d)
          else isdigit c)"

text \<open>The results a command adds to what has been passed to the bus client.\<close>

definition results_of :: "world \<Rightarrow> string \<Rightarrow> globals \<Rightarrow> mqtt_message list" where
  "results_of w cmd g = drop (length (mqtt_log g)) (mqtt_log (process_command w cmd g))"

text \<open>The driver calls a command adds to those made.\<close>

definition calls_of :: "world \<Rightarrow> string \<Rightarrow> globals \<Rightarrow> ecc_call list" where
  "calls_of w cmd g = drop (length (ecc_log g)) (ecc_log (process_command w cmd g))"

text \<open>
  A controller table with both controllers found: slot 0 with handle 0 and three axes
  connected, slot 1 with handle 1 and its axis 0 connected.
\<close>

definition both_controllers :: "nat \<Rightarrow> ControllerInfo" where
  "both_controllers =
     (\<lambda>i. if i = 0
          then \<lparr>handle = 0, ctrl_id = 4, connected = True, axes_connected = (\<lambda>a. a < 3)\<rparr>
          else \<lparr>handle = 1, ctrl_id = 2222, connected = True, axes_connected = (\<lambda>a. a = 0)\<rparr>)"

text \<open>An outside whose driver refuses to switch movement on or off.\<close>

definition stuck_world :: world where
  "stuck_world = calm_world\<lparr>ECC_controlMove := (\<lambda>h a v. -1)\<rparr>"

text \<open>
  The log of messages grew by at most one message, and by none if the bus was
  disconnected.
\<close>

definition log_extended :: "globals \<Rightarrow> globals \<Rightarrow> bool" where
  "log_extended g g' =
     (take (length (mqtt_log g)) (mqtt_log g') = mqtt_log g \<and>
      length (mqtt_log g') \<le> length (mqtt_log g) + 1 \<and>
      (\<not> g_mqtt_connected g \<longrightarrow> mqtt_log g' = mqtt_log g))"

section \<open>The ring never overwrites unread samples\<close>

lemma ring_size_pos: "0 < ring_size"
  by (simp add: ring_size_def BUFFER_SIZE_def)

lemma ring_inv_init: "ring_inv LockFreeBuffer_init"
  by (simp add: ring_inv_def LockFreeBuffer_init_def ring_size_pos)

lemma ring_inv_try_write: "ring_inv b \<Longrightarrow> ring_inv (snd (try_write s b))"
  by (simp add: ring_inv_def try_write_def Let_def ring_size_pos)

lemma ring_inv_try_read: "ring_inv b \<Longrightarrow> ring_inv (snd (try_read b))"
  by (simp add: ring_inv_def try_read_def Let_def ring_size_pos)

lemma ring_inv_step: "ring_inv b \<Longrightarrow> ring_inv (ring_step b x)"
  by (cases x) (simp_all add: ring_inv_try_write ring_inv_try_read)

lemma ring_inv_foldl: "ring_inv b \<Longrightarrow> ring_inv (foldl ring_step b ops)"
  by (induction ops arbitrary: b) (simp_all add: ring_inv_step)

lemma ring_inv_ring_run: "ring_inv (ring_run ops)"
  by (simp add: ring_run_def ring_inv_foldl ring_inv_init)

lemma try_write_full: "ring_full b \<Longrightarrow> try_write s b = (False, b)"
  by (simp add: ring_full_def try_write_def)

lemma take_Suc_update: "k < length ys \<Longrightarrow> take (Suc k) (ys[k := s]) = take k ys @ [s]"
  by (simp add: take_Suc_conv_app_nth)

lemma drop_update_last:
  assumes "r \<le> w" "w < length xs"
  shows "take (Suc (w - r)) (drop r (xs[w := s])) = take (w - r) (drop r xs) @ [s]"
proof -
  have "drop r (xs[w := s]) = (drop r xs)[w - r := s]"
    using assms by (simp add: drop_update_swap)
  moreover have "w - r < length (drop r xs)" using assms by simp
  ultimately show ?thesis by (simp add: take_Suc_update)
qed

lemma unread_try_write:
  assumes inv: "ring_inv b" and nf: "\<not> ring_full b"
  shows "unread (snd (try_write s b)) = unread b @ [s]"
proof -
  let ?w = "write_pos b" and ?r = "read_pos b" and ?xs = "buffer b"
  from inv have len: "length ?xs = ring_size" and w: "?w < ring_size" and r: "?r < ring_size"
    by (simp_all add: ring_inv_def)
  from nf have ne: "(?w + 1) mod ring_size \<noteq> ?r" by (simp add: ring_full_def)
  have tw: "snd (try_write s b) = b\<lparr>buffer := ?xs[?w := s], write_pos := (?w + 1) mod ring_size\<rparr>"
    using ne by (simp add: try_write_def Let_def)
  show ?thesis
  proof (cases "?w + 1 = ring_size")
    case True
    then have w0: "(?w + 1) mod ring_size = 0" by simp
    with ne have rpos: "0 < ?r" by simp
    have rw: "?r \<le> ?w" using True r by simp
    have "drop ?r (?xs[?w := s]) = take (Suc (?w - ?r)) (drop ?r (?xs[?w := s]))"
      using True len rw by simp
    also have "\<dots> = take (?w - ?r) (drop ?r ?xs) @ [s]"
      using rw w len by (simp add: drop_update_last)
    finally show ?thesis
      using rpos rw w0 by (simp add: unread_def tw)
  next
    case False
    then have w1: "(?w + 1) mod ring_size = ?w + 1" using w by simp
    show ?thesis
    proof (cases "?r \<le> ?w")
      case True
      then show ?thesis
        using w len w1 drop_update_last[of ?r ?w ?xs s]
        by (simp add: unread_def tw Suc_diff_le)
    next
      case nle: False
      then have "?w + 1 < ?r" using ne w1 by simp
      then show ?thesis
        using w len w1 nle by (simp add: unread_def tw take_Suc_update)
    qed
  qed
qed

lemma sampler_tick_full:
  assumes "ring_full (g_position_buffer g)"
  shows "snd (sampler_tick w (l, g)) = g\<lparr>g_total_dropped := g_total_dropped g + 1\<rparr>"
    and "dropped_count (fst (sampler_tick w (l, g))) = dropped_count l + 1"
    and "sample_count (fst (sampler_tick w (l, g))) = sample_count l"
  using assms by (simp_all add: sampler_tick_def Let_def try_write_full)

text \<open>
  Claim C7. After any sequence of \<open>try_write\<close> and \<open>try_read\<close> operations on the ring:
  when the ring is full, \<open>try_write\<close> returns \<open>false\<close> and leaves the cursors and the
  contents as they are, so the unread samples are the same, and the sampler's loop body
  adds one to the drop counter and changes nothing else in the globals; when the ring
  is not full, the unread samples after the write are the unread samples before it
  followed by the new sample, so no unread sample is ever overwritten.
\<close>

theorem full_ring_rejects_write:
  "let b = ring_run ops in
     (ring_full b \<longrightarrow>
        try_write s b = (False, b) \<and>
        unread (snd (try_write s b)) = unread b \<and>
        snd (sampler_tick w (l, g\<lparr>g_position_buffer := b\<rparr>)) =
          g\<lparr>g_position_buffer := b, g_total_dropped := g_total_dropped g + 1\<rparr>) \<and>
     (\<not> ring_full b \<longrightarrow> unread (snd (try_write s b)) = unread b @ [s])"
  using ring_inv_ring_run[of ops]
  by (simp add: Let_def try_write_full unread_try_write sampler_tick_full)

lemma ring_run_writes:
  "n < ring_size \<Longrightarrow>
     write_pos (ring_run (replicate n (Write s))) = n \<and>
     read_pos (ring_run (replicate n (Write s))) = 0"
proof (induction n)
  case 0
  then show ?case by (simp add: ring_run_def LockFreeBuffer_init_def)
next
  case (Suc n)
  then have ih: "write_pos (ring_run (replicate n (Write s))) = n"
    "read_pos (ring_run (replicate n (Write s))) = 0" by simp_all
  have "ring_run (replicate (Suc n) (Write s)) =
        snd (try_write s (ring_run (replicate n (Write s))))"
  proof -
    have "replicate (Suc n) (Write s) = replicate n (Write s) @ [Write s]"
      by (simp add: replicate_append_same)
    then show ?thesis
      by (simp only: ring_run_def foldl_append foldl.simps ring_step.simps)
  qed
  then show ?case using ih Suc.prems by (simp add: try_write_def Let_def)
qed

text \<open>
  The claim at the ring filled by \<open>ring_size - 1\<close> writes, and at the empty ring.
\<close>

theorem full_ring_rejects_write_witness:
  "ring_full (ring_run (replicate (ring_size - 1) (Write PositionSample_default))) \<and>
   try_write PositionSample_default
     (ring_run (replicate (ring_size - 1) (Write PositionSample_default))) =
     (False, ring_run (replicate (ring_size - 1) (Write PositionSample_default))) \<and>
   \<not> ring_full (ring_run []) \<and>
   unread (snd (try_write PositionSample_default (ring_run []))) =
     unread (ring_run []) @ [PositionSample_default]"
proof -
  have full: "ring_full (ring_run (replicate (ring_size - 1) (Write PositionSample_default)))"
    using ring_run_writes [of "ring_size - 1" PositionSample_default] ring_size_pos
    by (simp add: ring_full_def)
  have nonfull: "\<not> ring_full (ring_run [])"
    by (simp add: ring_full_def ring_run_def LockFreeBuffer_init_def ring_size_def BUFFER_SIZE_def)
  show ?thesis
    using full nonfull
      full_ring_rejects_write [of "replicate (ring_size - 1) (Write PositionSample_default)"
        PositionSample_default]
      full_ring_rejects_write [of "[]" PositionSample_default]
    by (simp add: Let_def)
qed

section \<open>Counting samples\<close>

lemma available_try_write:
  assumes "ring_inv b" "try_write s b = (True, b')"
  shows "available b' = available b + 1"
proof -
  from assms(2) have ne: "(write_pos b + 1) mod ring_size \<noteq> read_pos b"
    and b': "b' = b\<lparr>buffer := (buffer b)[write_pos b := s],
                    write_pos := (write_pos b + 1) mod ring_size\<rparr>"
    by (auto simp: try_write_def Let_def split: if_splits)
  from assms(1) have w: "write_pos b < ring_size" and r: "read_pos b < ring_size"
    by (simp_all add: ring_inv_def)
  show ?thesis
  proof (cases "write_pos b + 1 = ring_size")
    case True
    then show ?thesis using ne r by (simp add: b' available_def Let_def)
  next
    case False
    then have "(write_pos b + 1) mod ring_size = write_pos b + 1" using w by simp
    then show ?thesis using ne w r by (auto simp: b' available_def Let_def)
  qed
qed

lemma available_try_read:
  assumes "ring_inv b" "try_read b = (Some s, b')"
  shows "available b' + 1 = available b"
proof -
  from assms(2) have ne: "read_pos b \<noteq> write_pos b"
    and b': "b' = b\<lparr>read_pos := (read_pos b + 1) mod ring_size\<rparr>"
    by (auto simp: try_read_def Let_def split: if_splits)
  from assms(1) have w: "write_pos b < ring_size" and r: "read_pos b < ring_size"
    by (simp_all add: ring_inv_def)
  show ?thesis
  proof (cases "read_pos b + 1 = ring_size")
    case True
    then show ?thesis using ne w by (simp add: b' available_def Let_def)
  next
    case False
    then have "(read_pos b + 1) mod ring_size = read_pos b + 1" using r by simp
    then show ?thesis using ne w r by (auto simp: b' available_def Let_def)
  qed
qed

lemma try_read_None: "try_read b = (None, b') \<Longrightarrow> b' = b"
  by (auto simp: try_read_def Let_def split: if_splits)

lemma collect_batch_available:
  "ring_inv b \<Longrightarrow> collect_batch batch b = (batch', b') \<Longrightarrow>
     ring_inv b' \<and> available b' + length batch' = available b + length batch"
proof (induction batch b arbitrary: batch' b' rule: collect_batch.induct)
  case (1 batch b)
  show ?case
  proof (cases "length batch < BUFFER_SIZE")
    case False
    with "1.prems" show ?thesis by (simp add: collect_batch.simps)
  next
    case True
    obtain r b1 where tr: "try_read b = (r, b1)" by (cases "try_read b")
    show ?thesis
    proof (cases r)
      case None
      with tr True "1.prems" show ?thesis
        by (auto simp: collect_batch.simps [of batch b] dest: try_read_None)
    next
      case (Some s)
      have inv1: "ring_inv b1" using ring_inv_try_read [OF "1.prems"(1)] tr by simp
      have cb: "collect_batch (batch @ [s]) b1 = (batch', b')"
        using "1.prems"(2) True tr Some by (simp add: collect_batch.simps [of batch b])
      have "ring_inv b' \<and> available b' + length batch' = available b1 + length (batch @ [s])"
        using "1.IH" [OF True _ _ inv1 cb] tr Some by simp
      moreover have "available b1 + 1 = available b"
        using available_try_read [OF "1.prems"(1)] tr Some by simp
      ultimately show ?thesis by simp
    qed
  qed
qed

lemma dispatcher_frame_refl [simp]: "dispatcher_frame g g"
  by (simp add: dispatcher_frame_def)

lemma dispatcher_frame_publish [simp]:
  "dispatcher_frame g (publish_result w t g1) = dispatcher_frame g g1"
  by (simp add: dispatcher_frame_def publish_result_def)

lemma dispatcher_frame_ecc [simp]:
  "dispatcher_frame g (ecc_call_made c g1) = dispatcher_frame g g1"
  by (simp add: dispatcher_frame_def ecc_call_made_def)

lemma dispatcher_frame_rate [simp]:
  "dispatcher_frame g (g1\<lparr>g_sample_rate_hz := r, g_sample_interval_ns := i\<rparr>) =
   dispatcher_frame g g1"
  by (simp add: dispatcher_frame_def)

lemma handle_STATUS_frame: "dispatcher_frame g (handle_STATUS w g)"
  by (simp add: handle_STATUS_def)

lemma handle_SET_RATE_frame: "dispatcher_frame g (handle_SET_RATE w cmd g)"
  by (simp add: handle_SET_RATE_def Let_def split: option.split prod.split)

lemma handle_SET_AMP_frame: "dispatcher_frame g (handle_SET_AMP w cmd g)"
  by (simp add: handle_SET_AMP_def Let_def split: option.split prod.split)

lemma handle_SET_FREQ_frame: "dispatcher_frame g (handle_SET_FREQ w cmd g)"
  by (simp add: handle_SET_FREQ_def Let_def split: option.split prod.split)

lemma handle_MOVE_frame: "dispatcher_frame g (handle_MOVE w cmd g)"
  by (simp add: handle_MOVE_def Let_def split: option.split prod.split)

lemma handle_STOP_frame: "dispatcher_frame g (handle_STOP w cmd g)"
  by (simp add: handle_STOP_def Let_def split: option.split prod.split)

lemma process_command_frame: "dispatcher_frame g (process_command w cmd g)"
  by (simp add: process_command_def handle_STATUS_frame handle_SET_RATE_frame
        handle_SET_AMP_frame handle_SET_FREQ_frame handle_MOVE_frame handle_STOP_frame)

lemma command_processor_iteration_counters:
  "g_position_buffer (command_processor_iteration w g) = g_position_buffer g"
  "g_total_captured (command_processor_iteration w g) = g_total_captured g"
  "g_total_published (command_processor_iteration w g) = g_total_published g"
  "g_total_dropped (command_processor_iteration w g) = g_total_dropped g"
  "g_mqtt_connected (command_processor_iteration w g) = g_mqtt_connected g"
proof -
  have "g_position_buffer (command_processor_iteration w g) = g_position_buffer g \<and>
        g_total_captured (command_processor_iteration w g) = g_total_captured g \<and>
        g_total_published (command_processor_iteration w g) = g_total_published g \<and>
        g_total_dropped (command_processor_iteration w g) = g_total_dropped g \<and>
        g_mqtt_connected (command_processor_iteration w g) = g_mqtt_connected g"
  proof (cases "g_command_queue g")
    case Nil
    then show ?thesis by (simp add: command_processor_iteration_def)
  next
    case (Cons cmd rest)
    then show ?thesis
      using process_command_frame [of "g\<lparr>g_command_queue := rest\<rparr>" w cmd]
      by (simp add: command_processor_iteration_def dispatcher_frame_def)
  qed
  then show
    "g_position_buffer (command_processor_iteration w g) = g_position_buffer g"
    "g_total_captured (command_processor_iteration w g) = g_total_captured g"
    "g_total_published (command_processor_iteration w g) = g_total_published g"
    "g_total_dropped (command_processor_iteration w g) = g_total_dropped g"
    "g_mqtt_connected (command_processor_iteration w g) = g_mqtt_connected g"
    by simp_all
qed

text \<open>The two invariants of a run.\<close>

lemma sampler_iteration_counts:
  assumes "ring_inv (g_position_buffer g)"
    and "sampler_iteration w (sl, g) = (sl', g')"
  shows "ring_inv (g_position_buffer g')"
    and "g_total_published g' = g_total_published g"
    and "g_mqtt_connected g' = g_mqtt_connected g"
    and "g_total_captured g' + available (g_position_buffer g) =
         g_total_captured g + available (g_position_buffer g')"
    and "g_total_captured g' + g_total_dropped g' + debug_counter sl =
         g_total_captured g + g_total_dropped g + debug_counter sl'"
proof -
  obtain ok b' where tw: "try_write (read_all_positions_fast w g) (g_position_buffer g) = (ok, b')"
    by (cases "try_write (read_all_positions_fast w g) (g_position_buffer g)")
  have inv': "ring_inv b'"
    using ring_inv_try_write [OF assms(1), of "read_all_positions_fast w g"] tw by simp
  have av: "ok \<Longrightarrow> available b' = available (g_position_buffer g) + 1"
    using available_try_write [OF assms(1)] tw by simp
  show "ring_inv (g_position_buffer g')"
    and "g_total_published g' = g_total_published g"
    and "g_mqtt_connected g' = g_mqtt_connected g"
    and "g_total_captured g' + available (g_position_buffer g) =
         g_total_captured g + available (g_position_buffer g')"
    and "g_total_captured g' + g_total_dropped g' + debug_counter sl =
         g_total_captured g + g_total_dropped g + debug_counter sl'"
    using assms tw inv' av
    by (auto simp: sampler_iteration_def sampler_tick_def Let_def split: if_splits bool.splits)
qed

lemma publisher_period_counts:
  assumes "ring_inv (g_position_buffer g)"
    and "publisher_period w (pl, g) = (pl', g')"
  shows "ring_inv (g_position_buffer g')"
    and "g_total_captured g' = g_total_captured g"
    and "g_total_dropped g' = g_total_dropped g"
    and "g_mqtt_connected g' = g_mqtt_connected g"
    and "g_total_published g' + available (g_position_buffer g') \<le>
         g_total_published g + available (g_position_buffer g)"
    and "g_mqtt_connected g \<Longrightarrow> mosquitto_publish_position w = MOSQ_ERR_SUCCESS \<Longrightarrow>
         g_total_published g' + available (g_position_buffer g') =
         g_total_published g + available (g_position_buffer g)"
proof -
  obtain batch b' where cb: "collect_batch [] (g_position_buffer g) = (batch, b')"
    by (cases "collect_batch [] (g_position_buffer g)")
  from collect_batch_available [OF assms(1) cb]
  have inv': "ring_inv b'" and av: "available b' + length batch = available (g_position_buffer g)"
    by simp_all
  show "ring_inv (g_position_buffer g')"
    and "g_total_captured g' = g_total_captured g"
    and "g_total_dropped g' = g_total_dropped g"
    and "g_mqtt_connected g' = g_mqtt_connected g"
    and "g_total_published g' + available (g_position_buffer g') \<le>
         g_total_published g + available (g_position_buffer g)"
    and "g_mqtt_connected g \<Longrightarrow> mosquitto_publish_position w = MOSQ_ERR_SUCCESS \<Longrightarrow>
         g_total_published g' + available (g_position_buffer g') =
         g_total_published g + available (g_position_buffer g)"
    using assms(2) cb inv' av
    by (auto simp: publisher_period_def Let_def split: if_splits)
qed

lemma step_counts_inv:
  assumes "counts_inv s"
  shows "counts_inv (step s e)"
proof -
  obtain sl pl g where s: "s = (sl, pl, g)" by (cases s)
  from assms s have inv: "ring_inv (g_position_buffer g)"
    and le: "g_total_published g + available (g_position_buffer g) \<le> g_total_captured g"
    and cd: "g_total_captured g + g_total_dropped g = debug_counter sl"
    by (simp_all add: counts_inv_def)
  show ?thesis
  proof (cases e)
    case (SamplerTick w)
    obtain sl' g' where it: "sampler_iteration w (sl, g) = (sl', g')"
      by (cases "sampler_iteration w (sl, g)")
    from sampler_iteration_counts [OF inv it] le cd show ?thesis
      by (simp add: s SamplerTick it counts_inv_def)
  next
    case (PublisherPeriod w)
    obtain pl' g' where it: "publisher_period w (pl, g) = (pl', g')"
      by (cases "publisher_period w (pl, g)")
    from publisher_period_counts(1-5) [OF inv it] le cd show ?thesis
      by (simp add: s PublisherPeriod it counts_inv_def)
  next
    case (CommandIteration w)
    with inv le cd show ?thesis
      by (simp add: s counts_inv_def command_processor_iteration_counters)
  next
    case (OnMessage payload)
    with inv le cd show ?thesis
      by (simp add: s counts_inv_def mqtt_on_message_def split: option.split)
  next
    case (OnConnect result)
    with inv le cd show ?thesis
      by (simp add: s counts_inv_def mqtt_on_connect_def)
  next
    case OnDisconnect
    with inv le cd show ?thesis
      by (simp add: s counts_inv_def mqtt_on_disconnect_def)
  qed
qed

lemma step_counts_exact:
  assumes "counts_inv s" "counts_exact s" "delivers e"
  shows "counts_exact (step s e)"
proof -
  obtain sl pl g where s: "s = (sl, pl, g)" by (cases s)
  from assms s have inv: "ring_inv (g_position_buffer g)"
    and con: "g_mqtt_connected g"
    and eq: "g_total_captured g = g_total_published g + available (g_position_buffer g)"
    by (simp_all add: counts_inv_def counts_exact_def)
  show ?thesis
  proof (cases e)
    case (SamplerTick w)
    obtain sl' g' where it: "sampler_iteration w (sl, g) = (sl', g')"
      by (cases "sampler_iteration w (sl, g)")
    from sampler_iteration_counts [OF inv it] con eq show ?thesis
      by (simp add: s SamplerTick it counts_exact_def)
  next
    case (PublisherPeriod w)
    obtain pl' g' where it: "publisher_period w (pl, g) = (pl', g')"
      by (cases "publisher_period w (pl, g)")
    from assms(3) PublisherPeriod have ok: "mosquitto_publish_position w = MOSQ_ERR_SUCCESS"
      by simp
    from publisher_period_counts(2,4) [OF inv it] publisher_period_counts(6) [OF inv it con ok]
      con eq show ?thesis
      by (simp add: s PublisherPeriod it counts_exact_def)
  next
    case (CommandIteration w)
    with con eq show ?thesis
      by (simp add: s counts_exact_def command_processor_iteration_counters)
  next
    case (OnMessage payload)
    with con eq show ?thesis
      by (simp add: s counts_exact_def mqtt_on_message_def split: option.split)
  next
    case (OnConnect result)
    with con eq show ?thesis
      by (simp add: s counts_exact_def mqtt_on_connect_def)
  next
    case OnDisconnect
    with assms(3) show ?thesis by simp
  qed
qed

lemma run_counts_inv: "counts_inv s \<Longrightarrow> counts_inv (run s evs)"
  unfolding run_def by (induction evs arbitrary: s) (simp_all add: step_counts_inv)

lemma run_counts_exact:
  "counts_inv s \<Longrightarrow> counts_exact s \<Longrightarrow> list_all delivers evs \<Longrightarrow> counts_exact (run s evs)"
  unfolding run_def
  by (induction evs arbitrary: s) (simp_all add: step_counts_inv step_counts_exact)

lemma available_init: "available LockFreeBuffer_init = 0"
  by (simp add: available_def LockFreeBuffer_init_def)

lemma system_start_counts:
  "counts_inv (system_start ctrls now)" "counts_exact (system_start ctrls now)"
  by (simp_all add: counts_inv_def counts_exact_def system_start_def globals_start_def
        sampler_start_def ring_inv_init available_init)

text \<open>
  Claim C9, as amended. The claim has the samples captured equal to the samples
  published, dropped and in the ring. The program counts a sample as captured only when
  the ring took it, and as dropped only when the ring refused it; and a batch that is
  read from the ring and then not published (the bus is disconnected, or the bus client
  returns an error) is counted nowhere. What holds after every run from the start of the
  threads, whenever no thread is in the middle of a pass: the samples published and the samples in the
  ring are at most the samples captured; they are exactly the samples captured when
  every publisher pass was answered with success and the bus never disconnected; and
  the samples captured and the samples dropped add up to the passes of the sampler.
\<close>

theorem ring_conservation_of_captured:
  "case run (system_start ctrls now) evs of (sl, pl, g) \<Rightarrow>
     g_total_published g + available (g_position_buffer g) \<le> g_total_captured g \<and>
     (list_all delivers evs \<longrightarrow>
        g_total_captured g = g_total_published g + available (g_position_buffer g)) \<and>
     g_total_captured g + g_total_dropped g = debug_counter sl"
  using run_counts_inv [OF system_start_counts(1), of ctrls now evs]
    run_counts_exact [OF system_start_counts, of evs ctrls now]
  by (auto simp: counts_inv_def counts_exact_def)

lemma ring_size_gt1: "1 < ring_size"
  by (simp add: ring_size_def BUFFER_SIZE_def)

lemma first_write:
  "write_pos b = 0 \<Longrightarrow> read_pos b = 0 \<Longrightarrow>
   try_write s b = (True, b\<lparr>buffer := (buffer b)[0 := s], write_pos := 1\<rparr>)"
  using ring_size_gt1 by (simp add: try_write_def Let_def)

lemma first_collect:
  "write_pos b = 1 \<Longrightarrow> read_pos b = 0 \<Longrightarrow>
   collect_batch [] b = ([buffer b ! 0], b\<lparr>read_pos := 1\<rparr>)"
  using ring_size_gt1
  by (simp add: collect_batch.simps [of "[]"] collect_batch.simps [of "[x]" for x]
        try_read_def Let_def BUFFER_SIZE_def)

text \<open>
  The claim fails on a run of three events: the sampler captures one sample, the bus
  disconnects, and the publisher reads the sample and skips the batch. One sample is
  captured, none is published, dropped or in the ring.
\<close>

theorem ring_conservation_counterexample:
  "case run (system_start no_controllers 0)
          [SamplerTick calm_world, OnDisconnect, PublisherPeriod calm_world] of
     (sl, pl, g) \<Rightarrow>
       g_total_captured g = 1 \<and> g_total_published g = 0 \<and> g_total_dropped g = 0 \<and>
       available (g_position_buffer g) = 0 \<and>
       g_total_captured g \<noteq>
         g_total_published g + g_total_dropped g + available (g_position_buffer g)"
  by (simp add: run_def system_start_def globals_start_def sampler_start_def
        sampler_iteration_def sampler_tick_def first_write first_collect
        LockFreeBuffer_init_def ring_size_pos
        mqtt_on_disconnect_def publisher_period_def available_def Let_def)

text \<open>
  The amended claim on a run where the one batch is delivered.
\<close>

theorem ring_conservation_of_captured_witness:
  "list_all delivers [SamplerTick calm_world, PublisherPeriod calm_world] \<and>
   (case run (system_start no_controllers 0)
           [SamplerTick calm_world, PublisherPeriod calm_world] of
      (sl, pl, g) \<Rightarrow>
        g_total_captured g = g_total_published g + available (g_position_buffer g))"
proof -
  have d: "list_all delivers [SamplerTick calm_world, PublisherPeriod calm_world]"
    by (simp add: calm_world_def MOSQ_ERR_SUCCESS_def)
  show ?thesis
    using d ring_conservation_of_captured
      [where ctrls = no_controllers and now = 0
         and evs = "[SamplerTick calm_world, PublisherPeriod calm_world]"]
    by (simp split: prod.splits)
qed

section \<open>Reading the fields of a command\<close>

lemma starts_with_append [simp]: "starts_with p (p @ r)"
  by (simp add: starts_with_def)

lemma dropWhile_upto: "d \<notin> set a \<Longrightarrow> dropWhile (\<lambda>c. c \<noteq> d) (a @ d # r) = d # r"
  by (induction a) auto

lemma takeWhile_upto: "d \<notin> set a \<Longrightarrow> takeWhile (\<lambda>c. c \<noteq> d) (a @ d # r) = a"
  by (induction a) auto

lemma getline_field:
  "d \<notin> set a \<Longrightarrow>
   getline (istringstream_of (a @ d # r)) d = (istringstream_of r, a)"
  by (simp add: getline_def istringstream_of_def dropWhile_upto takeWhile_upto)

lemma dropWhile_Nil_takeWhile: "dropWhile P xs = [] \<Longrightarrow> takeWhile P xs = xs"
  by (induction xs) (auto split: if_splits)

lemma getline_last:
  "failbit (fst (getline (istringstream_of t) d)) = (t = []) \<and>
   snd (getline (istringstream_of t) d) = takeWhile (\<lambda>c. c \<noteq> d) t"
proof (cases "dropWhile (\<lambda>c. c \<noteq> d) t")
  case Nil
  have gl: "getline (istringstream_of t) d =
              (\<lparr>chars = [], eofbit = True, failbit = (t = [])\<rparr>, t)"
    by (simp add: getline_def istringstream_of_def Nil)
  have tw: "takeWhile (\<lambda>c. c \<noteq> d) t = t"
    using Nil by simp
  show ?thesis by (simp add: gl tw)
next
  case (Cons x r)
  have "getline (istringstream_of t) d =
          (\<lparr>chars = r, eofbit = False, failbit = False\<rparr>, takeWhile (\<lambda>c. c \<noteq> d) t)"
    by (simp add: getline_def istringstream_of_def Cons)
  moreover have "t \<noteq> []" using Cons by auto
  ultimately show ?thesis by simp
qed

lemma getline2_fields:
  assumes "CHR ''/'' \<notin> set a"
  shows "getline2 (a @ CHR ''/'' # t) =
           (if t = [] then None else Some (a, takeWhile (\<lambda>c. c \<noteq> CHR 0x0A) t))"
proof -
  have g1: "getline (istringstream_of (a @ CHR ''/'' # t)) CHR ''/'' = (istringstream_of t, a)"
    using assms by (rule getline_field)
  obtain iss2 b where g2: "getline (istringstream_of t) (CHR 0x0A) = (iss2, b)"
    by (cases "getline (istringstream_of t) (CHR 0x0A)")
  with getline_last [of t "CHR 0x0A"]
  have l: "failbit iss2 = (t = [])" "b = takeWhile (\<lambda>c. c \<noteq> CHR 0x0A) t" by simp_all
  have nf: "\<not> failbit (istringstream_of t)" by (simp add: istringstream_of_def)
  show ?thesis
    unfolding getline2_def g1 by (simp add: g2 l nf)
qed

lemma getline3_fields:
  assumes "CHR ''/'' \<notin> set a" "CHR ''/'' \<notin> set b"
  shows "getline3 (a @ CHR ''/'' # b @ CHR ''/'' # t) =
           (if t = [] then None else Some (a, b, takeWhile (\<lambda>c. c \<noteq> CHR 0x0A) t))"
proof -
  have g1: "getline (istringstream_of (a @ CHR ''/'' # b @ CHR ''/'' # t)) CHR ''/'' =
              (istringstream_of (b @ CHR ''/'' # t), a)"
    using assms(1) by (rule getline_field)
  have g2: "getline (istringstream_of (b @ CHR ''/'' # t)) CHR ''/'' = (istringstream_of t, b)"
    using assms(2) by (rule getline_field)
  obtain iss3 c where g3: "getline (istringstream_of t) (CHR 0x0A) = (iss3, c)"
    by (cases "getline (istringstream_of t) (CHR 0x0A)")
  with getline_last [of t "CHR 0x0A"]
  have l: "failbit iss3 = (t = [])" "c = takeWhile (\<lambda>c. c \<noteq> CHR 0x0A) t" by simp_all
  have nf: "\<not> failbit (istringstream_of s)" for s by (simp add: istringstream_of_def)
  show ?thesis
    unfolding getline3_def g1 by (simp add: g2 g3 l nf)
qed

text \<open>What \<open>atoi\<close> makes of a token without a leading integer.\<close>

lemma number_read_no_integer:
  assumes "\<not> leading_integer s"
  shows "number_read s = 0"
proof (cases "dropWhile isspace s")
  case Nil
  show ?thesis by (simp add: number_read_def Nil)
next
  case (Cons c cs)
  show ?thesis
  proof (cases "c = CHR ''-'' \<or> c = CHR ''+''")
    case True
    with assms Cons have "cs = [] \<or> (\<exists>d ds. cs = d # ds \<and> \<not> isdigit d)"
      by (cases cs) (simp_all add: leading_integer_def)
    then have "atoi_digits cs 0 = 0" by auto
    with True show ?thesis by (auto simp: number_read_def Cons)
  next
    case False
    with assms Cons have "\<not> isdigit c" by (simp add: leading_integer_def)
    with False show ?thesis by (simp add: number_read_def Cons)
  qed
qed

lemma atoi_no_integer: "\<not> leading_integer s \<Longrightarrow> atoi s = 0"
  by (simp add: atoi_def strtol_def number_read_no_integer)

section \<open>MOVE commands\<close>

lemma map_axis_valid:
  assumes "map_axis axis_str = (controller, axis, True)"
  shows "CHR ''/'' \<notin> set axis_str" "0 \<le> controller" "0 \<le> axis"
  using assms by (auto simp: map_axis_def split: if_splits)

lemma process_command_MOVE:
  "process_command w (''MOVE/'' @ r) g = handle_MOVE w (''MOVE/'' @ r) g"
  by (simp add: process_command_def starts_with_def)

lemma getline3_MOVE:
  assumes "CHR ''/'' \<notin> set axis_str"
  shows "getline3 (''MOVE/'' @ axis_str @ ''/'' @ token) =
           (if token = [] then None
            else Some (''MOVE'', axis_str, takeWhile (\<lambda>c. c \<noteq> CHR 0x0A) token))"
  using getline3_fields [of "''MOVE''" axis_str token] assms by simp

lemma handle_MOVE_connected:
  assumes "getline3 cmd = Some (move_cmd, axis_str, pos_str)"
    and "map_axis axis_str = (controller, axis, True)"
    and "connected (g_controllers g (nat controller))"
    and "axes_connected (g_controllers g (nat controller)) (nat axis)"
  shows "handle_MOVE w cmd g =
     (let h = handle (g_controllers g (nat controller));
          target = (word_of_int (atoi pos_str) :: 32 word);
          g1 = ecc_call_made (Call_controlTargetPosition h axis target) g;
          g2 = ecc_call_made (Call_controlMove h axis 1) g1
      in if ECC_controlTargetPosition w h axis target = 0
         then if ECC_controlMove w h axis 1 = 0
              then publish_result w (''/COMMAND/MOVE/'' @ axis_str @
                     ''/SUCCESS/Movement started to '' @ pos_str) g2
              else publish_result w (''/COMMAND/MOVE/'' @ axis_str @
                     ''/FAILED/Failed to enable movement'') g2
         else publish_result w (''/COMMAND/MOVE/'' @ axis_str @
                ''/FAILED/Failed to set target position'') g1)"
  using assms map_axis_valid(2,3) [OF assms(2)]
  by (simp add: handle_MOVE_def Let_def)

lemma mqtt_log_publish_result:
  "mqtt_log (publish_result w t g) =
     mqtt_log g @ (if g_mqtt_connected g
                   then [Publish MQTT_TOPIC_RESULT (to_string (get_nanosecond_timestamp w) @ t) 1]
                   else [])"
  by (simp add: publish_result_def)

lemma ecc_call_made_fields [simp]:
  "mqtt_log (ecc_call_made c g) = mqtt_log g"
  "ecc_log (ecc_call_made c g) = ecc_log g @ [c]"
  "g_mqtt_connected (ecc_call_made c g) = g_mqtt_connected g"
  "g_sample_rate_hz (ecc_call_made c g) = g_sample_rate_hz g"
  "g_sample_interval_ns (ecc_call_made c g) = g_sample_interval_ns g"
  by (simp_all add: ecc_call_made_def)

lemma publish_result_fields [simp]:
  "ecc_log (publish_result w t g) = ecc_log g"
  "g_sample_rate_hz (publish_result w t g) = g_sample_rate_hz g"
  "g_sample_interval_ns (publish_result w t g) = g_sample_interval_ns g"
  by (simp_all add: publish_result_def)

lemma MOVE_connected_effects:
  assumes "map_axis axis_str = (controller, axis, True)"
    and "connected (g_controllers g (nat controller))"
    and "axes_connected (g_controllers g (nat controller)) (nat axis)"
    and "token \<noteq> []"
  shows "calls_of w (''MOVE/'' @ axis_str @ ''/'' @ token) g =
     (let h = handle (g_controllers g (nat controller));
          target = (word_of_int (atoi (takeWhile (\<lambda>c. c \<noteq> CHR 0x0A) token)) :: 32 word)
      in if ECC_controlTargetPosition w h axis target = 0
         then [Call_controlTargetPosition h axis target, Call_controlMove h axis 1]
         else [Call_controlTargetPosition h axis target])"
    and "results_of w (''MOVE/'' @ axis_str @ ''/'' @ token) g =
     (let h = handle (g_controllers g (nat controller));
          pos_str = takeWhile (\<lambda>c. c \<noteq> CHR 0x0A) token;
          target = (word_of_int (atoi pos_str) :: 32 word)
      in if g_mqtt_connected g
         then [Publish MQTT_TOPIC_RESULT
                 (to_string (get_nanosecond_timestamp w) @ ''/COMMAND/MOVE/'' @ axis_str @
                  (if ECC_controlTargetPosition w h axis target = 0
                   then if ECC_controlMove w h axis 1 = 0
                        then ''/SUCCESS/Movement started to '' @ pos_str
                        else ''/FAILED/Failed to enable movement''
                   else ''/FAILED/Failed to set target position'')) 1]
         else [])"
proof -
  have p: "getline3 (''MOVE/'' @ axis_str @ ''/'' @ token) =
             Some (''MOVE'', axis_str, takeWhile (\<lambda>c. c \<noteq> CHR 0x0A) token)"
    using getline3_MOVE [OF map_axis_valid(1) [OF assms(1)], of token] assms(4) by simp
  note h = handle_MOVE_connected [OF p assms(1-3), of w]
  show "calls_of w (''MOVE/'' @ axis_str @ ''/'' @ token) g =
     (let h = handle (g_controllers g (nat controller));
          target = (word_of_int (atoi (takeWhile (\<lambda>c. c \<noteq> CHR 0x0A) token)) :: 32 word)
      in if ECC_controlTargetPosition w h axis target = 0
         then [Call_controlTargetPosition h axis target, Call_controlMove h axis 1]
         else [Call_controlTargetPosition h axis target])"
    unfolding calls_of_def process_command_MOVE h by (simp add: Let_def)
  show "results_of w (''MOVE/'' @ axis_str @ ''/'' @ token) g =
     (let h = handle (g_controllers g (nat controller));
          pos_str = takeWhile (\<lambda>c. c \<noteq> CHR 0x0A) token;
          target = (word_of_int (atoi pos_str) :: 32 word)
      in if g_mqtt_connected g
         then [Publish MQTT_TOPIC_RESULT
                 (to_string (get_nanosecond_timestamp w) @ ''/COMMAND/MOVE/'' @ axis_str @
                  (if ECC_controlTargetPosition w h axis target = 0
                   then if ECC_controlMove w h axis 1 = 0
                        then ''/SUCCESS/Movement started to '' @ pos_str
                        else ''/FAILED/Failed to enable movement''
                   else ''/FAILED/Failed to set target position'')) 1]
         else [])"
    unfolding results_of_def process_command_MOVE h by (simp add: Let_def mqtt_log_publish_result)
qed

lemma dropWhile_append_Cons:
  "dropWhile P xs = y # ys \<Longrightarrow> dropWhile P (xs @ zs) = y # ys @ zs"
  by (induction xs) (auto split: if_splits)

lemma leading_integer_append:
  assumes "leading_integer p"
  shows "leading_integer (p @ r)"
proof (cases "dropWhile isspace p")
  case Nil
  with assms show ?thesis by (simp add: leading_integer_def)
next
  case (Cons c cs)
  note app = dropWhile_append_Cons [OF Cons, of r]
  show ?thesis
  proof (cases "c = CHR ''-'' \<or> c = CHR ''+''")
    case True
    with assms Cons obtain d ds where "cs = d # ds" "isdigit d"
      by (cases cs) (simp_all add: leading_integer_def)
    with True show ?thesis by (auto simp: leading_integer_def app)
  next
    case False
    with assms Cons have "isdigit c" by (simp add: leading_integer_def)
    with False show ?thesis by (simp add: leading_integer_def app)
  qed
qed

lemma atoi_line_no_integer:
  assumes "\<not> leading_integer token"
  shows "atoi (takeWhile P token) = 0"
proof -
  have "\<not> leading_integer (takeWhile P token)"
    using leading_integer_append [of "takeWhile P token" "dropWhile P token"] assms by auto
  then show ?thesis by (rule atoi_no_integer)
qed

text \<open>
  Claim C4, as amended. For a MOVE command on a connected axis with a position field
  that is not empty, the dispatcher first sets the target position
  (\<open>ECC_controlTargetPosition\<close>); only when the driver accepts it does it enable movement
  (\<open>ECC_controlMove\<close> with 1); these are all the writing driver calls of the command.
  When the target was set and enabling failed, the result, published if the bus is
  connected, is \<open>FAILED/Failed to enable movement\<close>, and no call switches movement off:
  the program has no roll-back of a half-done MOVE.
\<close>

theorem MOVE_sets_target_then_enables:
  assumes "map_axis axis_str = (controller, axis, True)"
    and "connected (g_controllers g (nat controller))"
    and "axes_connected (g_controllers g (nat controller)) (nat axis)"
    and "token \<noteq> []"
  shows "(let h = handle (g_controllers g (nat controller));
              target = (word_of_int (atoi (takeWhile (\<lambda>c. c \<noteq> CHR 0x0A) token)) :: 32 word);
              cmd = ''MOVE/'' @ axis_str @ ''/'' @ token
          in calls_of w cmd g =
               (if ECC_controlTargetPosition w h axis target = 0
                then [Call_controlTargetPosition h axis target, Call_controlMove h axis 1]
                else [Call_controlTargetPosition h axis target]) \<and>
             Call_controlMove h axis 0 \<notin> set (calls_of w cmd g) \<and>
             (ECC_controlTargetPosition w h axis target = 0 \<and> ECC_controlMove w h axis 1 \<noteq> 0 \<longrightarrow>
                results_of w cmd g =
                  (if g_mqtt_connected g
                   then [Publish MQTT_TOPIC_RESULT
                           (to_string (get_nanosecond_timestamp w) @ ''/COMMAND/MOVE/'' @
                            axis_str @ ''/FAILED/Failed to enable movement'') 1]
                   else [])))"
  using MOVE_connected_effects [OF assms, of w]
  by (simp add: Let_def)

text \<open>
  The claim fails at \<open>MOVE/X/100\<close> when the driver accepts the target and refuses to
  enable movement: the FAILED result is published, and the calls of the command are the
  two of the attempt, with no call that disables movement after them.
\<close>

theorem MOVE_no_rollback_counterexample:
  "calls_of stuck_world ''MOVE/X/100'' (globals_start both_controllers) =
     [Call_controlTargetPosition 0 0 100, Call_controlMove 0 0 1] \<and>
   results_of stuck_world ''MOVE/X/100'' (globals_start both_controllers) =
     [Publish ''microscope/stage/result'' ''0/COMMAND/MOVE/X/FAILED/Failed to enable movement'' 1] \<and>
   Call_controlMove 0 0 0 \<notin>
     set (calls_of stuck_world ''MOVE/X/100'' (globals_start both_controllers))"
  by (simp add: calls_of_def results_of_def process_command_def starts_with_def handle_MOVE_def
        getline3_def getline_def istringstream_of_def map_axis_def atoi_def strtol_def number_read_def isspace_def
        isdigit_def globals_start_def both_controllers_def stuck_world_def calm_world_def
        publish_result_def ecc_call_made_def to_string_def uint64_to_string_def
        MQTT_TOPIC_RESULT_def Let_def)

text \<open>The amended claim at the same command and driver.\<close>

theorem MOVE_sets_target_then_enables_witness:
  "map_axis ''X'' = (0, 0, True) \<and>
   connected (g_controllers (globals_start both_controllers) (nat 0)) \<and>
   axes_connected (g_controllers (globals_start both_controllers) (nat 0)) (nat 0) \<and>
   ''100'' \<noteq> [] \<and>
   ECC_controlTargetPosition stuck_world 0 0 100 = 0 \<and>
   ECC_controlMove stuck_world 0 0 1 \<noteq> 0 \<and>
   calls_of stuck_world ''MOVE/X/100'' (globals_start both_controllers) =
     [Call_controlTargetPosition 0 0 100, Call_controlMove 0 0 1] \<and>
   results_of stuck_world ''MOVE/X/100'' (globals_start both_controllers) =
     [Publish ''microscope/stage/result'' ''0/COMMAND/MOVE/X/FAILED/Failed to enable movement'' 1]"
proof -
  have h: "map_axis ''X'' = (0, 0, True)"
    "connected (g_controllers (globals_start both_controllers) (nat 0))"
    "axes_connected (g_controllers (globals_start both_controllers) (nat 0)) (nat 0)"
    "''100'' \<noteq> []"
    by (simp_all add: map_axis_def globals_start_def both_controllers_def)
  have a: "atoi ''100'' = 100"
    by (simp add: atoi_def strtol_def number_read_def isspace_def isdigit_def)
  show ?thesis
    using h MOVE_sets_target_then_enables [OF h, of stuck_world]
    by (simp add: a globals_start_def both_controllers_def stuck_world_def calm_world_def
          to_string_def uint64_to_string_def MQTT_TOPIC_RESULT_def Let_def)
qed

section \<open>Decimal numbers and atoi\<close>

lemma of_char_digit: "d < 10 \<Longrightarrow> (of_char (char_of (48 + d :: nat)) :: nat) = 48 + d"
  by (simp add: of_char_of)

lemma isdigit_digit: "d < 10 \<Longrightarrow> isdigit (char_of (48 + d :: nat))"
  by (simp add: isdigit_def of_char_digit)

lemma of_char_digit_int: "d < 10 \<Longrightarrow> (of_char (char_of (48 + d :: nat)) :: int) = 48 + int d"
proof -
  assume "d < 10"
  then have "(of_char (char_of (48 + d :: nat)) :: nat) = 48 + d" by (rule of_char_digit)
  then have "int (of_char (char_of (48 + d :: nat)) :: nat) = int (48 + d)" by simp
  then show ?thesis by (simp add: of_char_def)
qed

lemma atoi_digits_decimal_nat:
  "atoi_digits (decimal_nat n @ r) acc =
     atoi_digits r (acc * 10 ^ length (decimal_nat n) + int n)"
proof (induction n arbitrary: r acc rule: decimal_nat.induct)
  case (1 n)
  show ?case
  proof (cases "n < 10")
    case True
    then show ?thesis
      by (simp add: decimal_nat.simps [of n] isdigit_digit of_char_digit_int)
  next
    case False
    have d: "n mod 10 < 10" by simp
    have "atoi_digits (decimal_nat n @ r) acc =
          atoi_digits (decimal_nat (n div 10) @ (char_of (48 + n mod 10) # r)) acc"
      using False by (simp add: decimal_nat.simps [of n])
    also have "\<dots> = atoi_digits (char_of (48 + n mod 10) # r)
                       (acc * 10 ^ length (decimal_nat (n div 10)) + int (n div 10))"
      using "1.IH" [OF False] by simp
    also have "\<dots> = atoi_digits r
                       ((acc * 10 ^ length (decimal_nat (n div 10)) + int (n div 10)) * 10 +
                        int (n mod 10))"
      using d by (simp add: isdigit_digit of_char_digit_int)
    also have "(acc * 10 ^ length (decimal_nat (n div 10)) + int (n div 10)) * 10 + int (n mod 10) =
               acc * 10 ^ length (decimal_nat n) + int n"
      using False by (simp add: decimal_nat.simps [of n] algebra_simps zdiv_int zmod_int)
    finally show ?thesis .
  qed
qed

lemma atoi_digits_decimal_nat0: "atoi_digits (decimal_nat n) 0 = int n"
  using atoi_digits_decimal_nat [of n "[]" 0] by simp

lemma decimal_nat_digits: "c \<in> set (decimal_nat n) \<Longrightarrow> isdigit c"
proof (induction n rule: decimal_nat.induct)
  case (1 n)
  show ?case
  proof (cases "n < 10")
    case True
    with "1.prems" show ?thesis by (simp add: decimal_nat.simps [of n] isdigit_digit)
  next
    case False
    have "n mod 10 < 10" by simp
    with False "1.prems" "1.IH" show ?thesis
      by (auto simp: decimal_nat.simps [of n] isdigit_digit)
  qed
qed

lemma decimal_nat_nonempty: "decimal_nat n \<noteq> []"
  by (simp add: decimal_nat.simps [of n])

lemma isdigit_plain:
  assumes "isdigit c"
  shows "\<not> isspace c" "c \<noteq> CHR ''-''" "c \<noteq> CHR ''+''" "c \<noteq> CHR 0x0A" "c \<noteq> CHR ''/''"
  using assms by (auto simp: isdigit_def isspace_def)

lemma number_read_decimal_int: "number_read (decimal_int i) = i"
proof (cases "i < 0")
  case True
  then show ?thesis
    by (simp add: decimal_int_def number_read_def isspace_def atoi_digits_decimal_nat0)
next
  case False
  obtain c cs where dn: "decimal_nat (nat i) = c # cs"
    using decimal_nat_nonempty [of "nat i"] by (cases "decimal_nat (nat i)") auto
  then have "isdigit c" using decimal_nat_digits [of c "nat i"] by simp
  note pl = isdigit_plain [OF this]
  have "number_read (c # cs) = atoi_digits (c # cs) 0"
    using pl by (simp add: number_read_def)
  then show ?thesis
    using False atoi_digits_decimal_nat0 [of "nat i"] by (simp add: decimal_int_def dn)
qed

lemma atoi_decimal_int:
  assumes "- 2147483648 \<le> i" and "i \<le> 2147483647"
  shows "atoi (decimal_int i) = i"
proof -
  have "strtol (decimal_int i) = i"
    using assms by (simp add: strtol_def number_read_decimal_int)
  moreover have "sint (word_of_int i :: 32 word) = i"
  proof -
    have "signed_take_bit 31 i = i"
      using assms by (intro signed_take_bit_int_eq_self) simp_all
    then show ?thesis by (simp add: sint_sbintrunc')
  qed
  ultimately show ?thesis by (simp add: atoi_def)
qed

lemma decimal_int_line:
  "decimal_int i \<noteq> []"
  "takeWhile (\<lambda>c. c \<noteq> CHR 0x0A) (decimal_int i) = decimal_int i"
proof -
  show "decimal_int i \<noteq> []"
    by (simp add: decimal_int_def decimal_nat_nonempty)
  have "\<forall>c \<in> set (decimal_int i). c \<noteq> CHR 0x0A"
    using decimal_nat_digits isdigit_plain(4) by (auto simp: decimal_int_def)
  then show "takeWhile (\<lambda>c. c \<noteq> CHR 0x0A) (decimal_int i) = decimal_int i"
    by simp
qed

section \<open>SET_RATE commands\<close>

lemma process_command_SET_RATE:
  "process_command w (''SET_RATE/'' @ r) g = handle_SET_RATE w (''SET_RATE/'' @ r) g"
  by (simp add: process_command_def starts_with_def)

lemma getline2_SET_RATE:
  "getline2 (''SET_RATE/'' @ token) =
     (if token = [] then None
      else Some (''SET_RATE'', takeWhile (\<lambda>c. c \<noteq> CHR 0x0A) token))"
  using getline2_fields [of "''SET_RATE''" token] by simp

lemma handle_SET_RATE_decimal:
  "- 2147483648 \<le> n \<Longrightarrow> n \<le> 2147483647 \<Longrightarrow>
   handle_SET_RATE w (''SET_RATE/'' @ decimal_int n) g =
     (if 100 \<le> n \<and> n \<le> 15000
      then publish_result w
             (''/COMMAND/SET_RATE/ALL/SUCCESS/Sampling rate set to '' @ decimal_int n @ '' Hz'')
             (g\<lparr>g_sample_rate_hz := n, g_sample_interval_ns := 1000000000 div n\<rparr>)
      else publish_result w
             ''/COMMAND/SET_RATE/ALL/FAILED/Invalid rate (must be 100-15000 Hz)'' g)"
  unfolding handle_SET_RATE_def getline2_SET_RATE
  by (simp add: decimal_int_line atoi_decimal_int Let_def)

text \<open>
  Claim C5, as amended. For every command \<open>SET_RATE/<n>\<close>, with \<open>n\<close> an integer in the
  range of \<open>int\<close> written in decimal: when \<open>100 \<le> n \<le> 15000\<close> the sample rate becomes \<open>n\<close>
  and the interval \<open>1000000000 / n\<close>; otherwise both stay as they are. A result is
  published only when the bus is connected: then it is the SUCCESS result in the first
  case and \<open>FAILED/Invalid rate (must be 100-15000 Hz)\<close> in the second. With the bus
  disconnected nothing is published.
\<close>

theorem SET_RATE_applied_iff_in_range:
  assumes "- 2147483648 \<le> n" and "n \<le> 2147483647"
  shows "(let cmd = ''SET_RATE/'' @ decimal_int n;
              g' = process_command w cmd g;
              ok = (100 \<le> n \<and> n \<le> 15000)
          in g_sample_rate_hz g' = (if ok then n else g_sample_rate_hz g) \<and>
             g_sample_interval_ns g' =
               (if ok then 1000000000 div n else g_sample_interval_ns g) \<and>
             results_of w cmd g =
               (if g_mqtt_connected g
                then [Publish MQTT_TOPIC_RESULT
                        (to_string (get_nanosecond_timestamp w) @
                         (if ok
                          then ''/COMMAND/SET_RATE/ALL/SUCCESS/Sampling rate set to '' @
                               decimal_int n @ '' Hz''
                          else ''/COMMAND/SET_RATE/ALL/FAILED/Invalid rate (must be 100-15000 Hz)''))
                        1]
                else []))"
  unfolding Let_def results_of_def process_command_SET_RATE handle_SET_RATE_decimal [OF assms]
  by (simp add: mqtt_log_publish_result)

text \<open>
  The claim fails at \<open>SET_RATE/50\<close> when the bus has disconnected: the rate and the
  interval stay as they are, and no result is published.
\<close>

theorem SET_RATE_rejection_unpublished_counterexample:
  "results_of calm_world ''SET_RATE/50''
     (mqtt_on_disconnect (globals_start no_controllers)) = [] \<and>
   g_sample_rate_hz (process_command calm_world ''SET_RATE/50''
     (mqtt_on_disconnect (globals_start no_controllers))) = 80"
  by (simp add: results_of_def process_command_def starts_with_def handle_SET_RATE_def
        getline2_def getline_def istringstream_of_def atoi_def strtol_def number_read_def isspace_def isdigit_def
        mqtt_on_disconnect_def globals_start_def publish_result_def Let_def)

text \<open>The amended claim at \<open>SET_RATE/50\<close> with the bus connected.\<close>

theorem SET_RATE_applied_iff_in_range_witness:
  "- 2147483648 \<le> (50 :: int) \<and> (50 :: int) \<le> 2147483647 \<and>
   g_sample_rate_hz (process_command calm_world ''SET_RATE/50'' (globals_start no_controllers)) = 80 \<and>
   g_sample_interval_ns (process_command calm_world ''SET_RATE/50'' (globals_start no_controllers))
     = 12500000 \<and>
   results_of calm_world ''SET_RATE/50'' (globals_start no_controllers) =
     [Publish ''microscope/stage/result''
        ''0/COMMAND/SET_RATE/ALL/FAILED/Invalid rate (must be 100-15000 Hz)'' 1]"
proof -
  have d: "decimal_int 50 = ''50''"
    by code_simp
  have r: "- 2147483648 \<le> (50 :: int)" "(50 :: int) \<le> 2147483647" by simp_all
  show ?thesis
    using SET_RATE_applied_iff_in_range [OF r, of calm_world "globals_start no_controllers"]
    by (simp add: d Let_def globals_start_def calm_world_def to_string_def uint64_to_string_def
          MQTT_TOPIC_RESULT_def)
qed

section \<open>Results of commands\<close>

lemma log_extended_same: "mqtt_log g1 = mqtt_log g \<Longrightarrow> log_extended g g1"
  by (simp add: log_extended_def)

lemma log_extended_publish:
  "mqtt_log g1 = mqtt_log g \<Longrightarrow> g_mqtt_connected g1 = g_mqtt_connected g \<Longrightarrow>
   log_extended g (publish_result w t g1)"
  by (simp add: log_extended_def mqtt_log_publish_result)

lemma handle_STATUS_log: "log_extended g (handle_STATUS w g)"
  by (simp add: handle_STATUS_def log_extended_publish)

lemma handle_SET_RATE_log: "log_extended g (handle_SET_RATE w cmd g)"
  by (simp add: handle_SET_RATE_def Let_def log_extended_same log_extended_publish
        split: option.split prod.split)

lemma handle_SET_AMP_log: "log_extended g (handle_SET_AMP w cmd g)"
  by (simp add: handle_SET_AMP_def Let_def log_extended_same log_extended_publish
        split: option.split prod.split)

lemma handle_SET_FREQ_log: "log_extended g (handle_SET_FREQ w cmd g)"
  by (simp add: handle_SET_FREQ_def Let_def log_extended_same log_extended_publish
        split: option.split prod.split)

lemma handle_MOVE_log: "log_extended g (handle_MOVE w cmd g)"
  by (simp add: handle_MOVE_def Let_def log_extended_same log_extended_publish
        split: option.split prod.split)

lemma handle_STOP_log: "log_extended g (handle_STOP w cmd g)"
  by (simp add: handle_STOP_def Let_def log_extended_same log_extended_publish
        split: option.split prod.split)

lemma process_command_log: "log_extended g (process_command w cmd g)"
  by (simp add: process_command_def log_extended_same handle_STATUS_log handle_SET_RATE_log
        handle_SET_AMP_log handle_SET_FREQ_log handle_MOVE_log handle_STOP_log)

lemma results_of_shape:
  "mqtt_log (process_command w cmd g) = mqtt_log g @ results_of w cmd g"
  "length (results_of w cmd g) \<le> 1"
  "\<not> g_mqtt_connected g \<Longrightarrow> results_of w cmd g = []"
proof -
  let ?l = "mqtt_log (process_command w cmd g)"
  have e: "take (length (mqtt_log g)) ?l = mqtt_log g"
    and n: "length ?l \<le> length (mqtt_log g) + 1"
    and d: "\<not> g_mqtt_connected g \<longrightarrow> ?l = mqtt_log g"
    using process_command_log [of g w cmd] by (simp_all add: log_extended_def)
  have "?l = take (length (mqtt_log g)) ?l @ drop (length (mqtt_log g)) ?l"
    by simp
  then show "mqtt_log (process_command w cmd g) = mqtt_log g @ results_of w cmd g"
    by (simp only: e results_of_def)
  show "length (results_of w cmd g) \<le> 1"
    using n by (simp add: results_of_def)
  show "\<not> g_mqtt_connected g \<Longrightarrow> results_of w cmd g = []"
    using d by (simp add: results_of_def)
qed

lemma starts_with_split: "starts_with p s \<Longrightarrow> \<exists>r. s = p @ r"
  by (metis starts_with_def append_take_drop_id)

lemma process_command_prefix:
  "starts_with ''SET_RATE/'' cmd \<Longrightarrow> process_command w cmd g = handle_SET_RATE w cmd g"
  "starts_with ''SET_AMP/'' cmd \<Longrightarrow> process_command w cmd g = handle_SET_AMP w cmd g"
  "starts_with ''SET_FREQ/'' cmd \<Longrightarrow> process_command w cmd g = handle_SET_FREQ w cmd g"
  "starts_with ''MOVE/'' cmd \<Longrightarrow> process_command w cmd g = handle_MOVE w cmd g"
  "starts_with ''STOP/'' cmd \<Longrightarrow> process_command w cmd g = handle_STOP w cmd g"
proof -
  have p: "process_command w (''SET_RATE/'' @ r) g = handle_SET_RATE w (''SET_RATE/'' @ r) g"
    "process_command w (''SET_AMP/'' @ r) g = handle_SET_AMP w (''SET_AMP/'' @ r) g"
    "process_command w (''SET_FREQ/'' @ r) g = handle_SET_FREQ w (''SET_FREQ/'' @ r) g"
    "process_command w (''MOVE/'' @ r) g = handle_MOVE w (''MOVE/'' @ r) g"
    "process_command w (''STOP/'' @ r) g = handle_STOP w (''STOP/'' @ r) g" for r
    by (simp_all add: process_command_def starts_with_def)
  show "starts_with ''SET_RATE/'' cmd \<Longrightarrow> process_command w cmd g = handle_SET_RATE w cmd g"
    using p(1) starts_with_split [of "''SET_RATE/''" cmd] by auto
  show "starts_with ''SET_AMP/'' cmd \<Longrightarrow> process_command w cmd g = handle_SET_AMP w cmd g"
    using p(2) starts_with_split [of "''SET_AMP/''" cmd] by auto
  show "starts_with ''SET_FREQ/'' cmd \<Longrightarrow> process_command w cmd g = handle_SET_FREQ w cmd g"
    using p(3) starts_with_split [of "''SET_FREQ/''" cmd] by auto
  show "starts_with ''MOVE/'' cmd \<Longrightarrow> process_command w cmd g = handle_MOVE w cmd g"
    using p(4) starts_with_split [of "''MOVE/''" cmd] by auto
  show "starts_with ''STOP/'' cmd \<Longrightarrow> process_command w cmd g = handle_STOP w cmd g"
    using p(5) starts_with_split [of "''STOP/''" cmd] by auto
qed

lemma length_publish_result:
  "g_mqtt_connected g1 \<Longrightarrow> length (mqtt_log (publish_result w t g1)) = length (mqtt_log g1) + 1"
  by (simp add: mqtt_log_publish_result)

lemma handle_SET_RATE_answers:
  "g_mqtt_connected g \<Longrightarrow> getline2 cmd \<noteq> None \<Longrightarrow>
   length (mqtt_log (handle_SET_RATE w cmd g)) = length (mqtt_log g) + 1"
  by (auto simp: handle_SET_RATE_def Let_def length_publish_result)

lemma handle_MOVE_answers:
  "g_mqtt_connected g \<Longrightarrow> getline3 cmd \<noteq> None \<Longrightarrow>
   length (mqtt_log (handle_MOVE w cmd g)) = length (mqtt_log g) + 1"
  by (auto simp: handle_MOVE_def Let_def length_publish_result split: prod.split)

lemma handle_SET_AMP_answers:
  "g_mqtt_connected g \<Longrightarrow> getline3 cmd = Some (a, axis_str, t) \<Longrightarrow>
   map_axis axis_str = (controller, axis, True) \<Longrightarrow>
   connected (g_controllers g (nat controller)) \<Longrightarrow>
   axes_connected (g_controllers g (nat controller)) (nat axis) \<Longrightarrow>
   length (mqtt_log (handle_SET_AMP w cmd g)) = length (mqtt_log g) + 1"
  using map_axis_valid(2,3) [of axis_str controller axis]
  by (simp add: handle_SET_AMP_def Let_def length_publish_result)

lemma handle_SET_FREQ_answers:
  "g_mqtt_connected g \<Longrightarrow> getline3 cmd = Some (a, axis_str, t) \<Longrightarrow>
   map_axis axis_str = (controller, axis, True) \<Longrightarrow>
   connected (g_controllers g (nat controller)) \<Longrightarrow>
   axes_connected (g_controllers g (nat controller)) (nat axis) \<Longrightarrow>
   length (mqtt_log (handle_SET_FREQ w cmd g)) = length (mqtt_log g) + 1"
  using map_axis_valid(2,3) [of axis_str controller axis]
  by (simp add: handle_SET_FREQ_def Let_def length_publish_result)

lemma handle_STOP_answers:
  "g_mqtt_connected g \<Longrightarrow> getline2 cmd = Some (a, axis_str) \<Longrightarrow>
   map_axis axis_str = (controller, axis, True) \<Longrightarrow>
   connected (g_controllers g (nat controller)) \<Longrightarrow>
   axes_connected (g_controllers g (nat controller)) (nat axis) \<Longrightarrow>
   length (mqtt_log (handle_STOP w cmd g)) = length (mqtt_log g) + 1"
  using map_axis_valid(2,3) [of axis_str controller axis]
  by (simp add: handle_STOP_def Let_def length_publish_result)

lemma length_results_of:
  "length (results_of w cmd g) = length (mqtt_log (process_command w cmd g)) - length (mqtt_log g)"
  by (simp add: results_of_def)

text \<open>
  Claim C1, as amended. Every command adds at most one message to those published, and
  removes none. It adds none when the bus is disconnected, when the command is none of
  the six, or when the fields of a SET\_RATE, SET\_AMP, SET\_FREQ, MOVE or STOP command
  cannot be read (the command is reported on the console only). With the bus connected,
  it adds exactly one for STATUS, for a SET\_RATE and a MOVE whose fields can be read
  (MOVE also when the axis name is unknown or the axis is not connected), and for a
  SET\_AMP, SET\_FREQ or STOP on a connected axis.
\<close>

theorem at_most_one_result_per_command:
  "mqtt_log (process_command w cmd g) = mqtt_log g @ results_of w cmd g \<and>
   length (results_of w cmd g) \<le> 1 \<and>
   (\<not> g_mqtt_connected g \<longrightarrow> results_of w cmd g = []) \<and>
   (cmd \<noteq> ''STATUS'' \<and> \<not> starts_with ''SET_RATE/'' cmd \<and> \<not> starts_with ''SET_AMP/'' cmd \<and>
    \<not> starts_with ''SET_FREQ/'' cmd \<and> \<not> starts_with ''MOVE/'' cmd \<and>
    \<not> starts_with ''STOP/'' cmd \<longrightarrow> results_of w cmd g = []) \<and>
   (starts_with ''SET_RATE/'' cmd \<and> getline2 cmd = None \<longrightarrow> results_of w cmd g = []) \<and>
   (starts_with ''SET_AMP/'' cmd \<and> getline3 cmd = None \<longrightarrow> results_of w cmd g = []) \<and>
   (starts_with ''SET_FREQ/'' cmd \<and> getline3 cmd = None \<longrightarrow> results_of w cmd g = []) \<and>
   (starts_with ''MOVE/'' cmd \<and> getline3 cmd = None \<longrightarrow> results_of w cmd g = []) \<and>
   (starts_with ''STOP/'' cmd \<and> getline2 cmd = None \<longrightarrow> results_of w cmd g = []) \<and>
   (g_mqtt_connected g \<and> cmd = ''STATUS'' \<longrightarrow> length (results_of w cmd g) = 1) \<and>
   (g_mqtt_connected g \<and> starts_with ''SET_RATE/'' cmd \<and> getline2 cmd \<noteq> None \<longrightarrow>
      length (results_of w cmd g) = 1) \<and>
   (g_mqtt_connected g \<and> starts_with ''MOVE/'' cmd \<and> getline3 cmd \<noteq> None \<longrightarrow>
      length (results_of w cmd g) = 1) \<and>
   (g_mqtt_connected g \<and> map_axis axis_str = (controller, axis, True) \<and>
    connected (g_controllers g (nat controller)) \<and>
    axes_connected (g_controllers g (nat controller)) (nat axis) \<and>
    (starts_with ''SET_AMP/'' cmd \<and> getline3 cmd = Some (a, axis_str, t) \<or>
     starts_with ''SET_FREQ/'' cmd \<and> getline3 cmd = Some (a, axis_str, t) \<or>
     starts_with ''STOP/'' cmd \<and> getline2 cmd = Some (a, axis_str)) \<longrightarrow>
      length (results_of w cmd g) = 1)"
proof -
  have c1: "mqtt_log (process_command w cmd g) = mqtt_log g @ results_of w cmd g"
    and c2: "length (results_of w cmd g) \<le> 1"
    and c3: "\<not> g_mqtt_connected g \<longrightarrow> results_of w cmd g = []"
    using results_of_shape [where w = w and cmd = cmd and g = g] by simp_all
  have c4: "cmd \<noteq> ''STATUS'' \<and> \<not> starts_with ''SET_RATE/'' cmd \<and> \<not> starts_with ''SET_AMP/'' cmd \<and>
    \<not> starts_with ''SET_FREQ/'' cmd \<and> \<not> starts_with ''MOVE/'' cmd \<and>
    \<not> starts_with ''STOP/'' cmd \<longrightarrow> results_of w cmd g = []"
    by (simp add: results_of_def process_command_def)
  have c5: "starts_with ''SET_RATE/'' cmd \<and> getline2 cmd = None \<longrightarrow> results_of w cmd g = []"
    by (simp add: results_of_def process_command_prefix handle_SET_RATE_def)
  have c6: "starts_with ''SET_AMP/'' cmd \<and> getline3 cmd = None \<longrightarrow> results_of w cmd g = []"
    by (simp add: results_of_def process_command_prefix handle_SET_AMP_def)
  have c7: "starts_with ''SET_FREQ/'' cmd \<and> getline3 cmd = None \<longrightarrow> results_of w cmd g = []"
    by (simp add: results_of_def process_command_prefix handle_SET_FREQ_def)
  have c8: "starts_with ''MOVE/'' cmd \<and> getline3 cmd = None \<longrightarrow> results_of w cmd g = []"
    by (simp add: results_of_def process_command_prefix handle_MOVE_def)
  have c9: "starts_with ''STOP/'' cmd \<and> getline2 cmd = None \<longrightarrow> results_of w cmd g = []"
    by (simp add: results_of_def process_command_prefix handle_STOP_def)
  have c10: "g_mqtt_connected g \<and> cmd = ''STATUS'' \<longrightarrow> length (results_of w cmd g) = 1"
    by (simp add: length_results_of process_command_def handle_STATUS_def length_publish_result)
  have c11: "g_mqtt_connected g \<and> starts_with ''SET_RATE/'' cmd \<and> getline2 cmd \<noteq> None \<longrightarrow>
      length (results_of w cmd g) = 1"
    by (simp add: length_results_of process_command_prefix handle_SET_RATE_answers)
  have c12: "g_mqtt_connected g \<and> starts_with ''MOVE/'' cmd \<and> getline3 cmd \<noteq> None \<longrightarrow>
      length (results_of w cmd g) = 1"
    by (simp add: length_results_of process_command_prefix handle_MOVE_answers)
  have c13: "g_mqtt_connected g \<and> map_axis axis_str = (controller, axis, True) \<and>
    connected (g_controllers g (nat controller)) \<and>
    axes_connected (g_controllers g (nat controller)) (nat axis) \<and>
    (starts_with ''SET_AMP/'' cmd \<and> getline3 cmd = Some (a, axis_str, t) \<or>
     starts_with ''SET_FREQ/'' cmd \<and> getline3 cmd = Some (a, axis_str, t) \<or>
     starts_with ''STOP/'' cmd \<and> getline2 cmd = Some (a, axis_str)) \<longrightarrow>
      length (results_of w cmd g) = 1"
  proof (intro impI, elim conjE disjE)
    assume h: "g_mqtt_connected g" "map_axis axis_str = (controller, axis, True)"
      "connected (g_controllers g (nat controller))"
      "axes_connected (g_controllers g (nat controller)) (nat axis)"
    {
      assume p: "starts_with ''SET_AMP/'' cmd" "getline3 cmd = Some (a, axis_str, t)"
      show "length (results_of w cmd g) = 1"
        using handle_SET_AMP_answers [OF h(1) p(2) h(2-4), of w]
        by (simp add: length_results_of process_command_prefix(2) [OF p(1)])
    next
      assume p: "starts_with ''SET_FREQ/'' cmd" "getline3 cmd = Some (a, axis_str, t)"
      show "length (results_of w cmd g) = 1"
        using handle_SET_FREQ_answers [OF h(1) p(2) h(2-4), of w]
        by (simp add: length_results_of process_command_prefix(3) [OF p(1)])
    next
      assume p: "starts_with ''STOP/'' cmd" "getline2 cmd = Some (a, axis_str)"
      show "length (results_of w cmd g) = 1"
        using handle_STOP_answers [OF h(1) p(2) h(2-4), of w]
        by (simp add: length_results_of process_command_prefix(5) [OF p(1)])
    }
  qed
  show ?thesis
    by (intro conjI c1 c2 c3 c4 c5 c6 c7 c8 c9 c10 c11 c12 c13)
qed

text \<open>
  The claim fails, with the bus connected, at a command that is none of the six and at
  a MOVE command without a position field: neither publishes a result.
\<close>

theorem silent_commands_counterexample:
  "g_mqtt_connected (globals_start both_controllers) \<and>
   results_of calm_world ''HELLO'' (globals_start both_controllers) = [] \<and>
   results_of calm_world ''MOVE/X'' (globals_start both_controllers) = []"
  by (simp add: results_of_def process_command_def starts_with_def handle_MOVE_def
        getline3_def getline_def istringstream_of_def globals_start_def)

text \<open>
  The amended claim at seven commands: STATUS, an unknown command, a MOVE without a
  position, STATUS with the bus disconnected, a MOVE for an axis that is not connected,
  a STOP for a connected axis, and a SET\_RATE.
\<close>

theorem at_most_one_result_per_command_witness:
  "length (results_of calm_world ''STATUS'' (globals_start both_controllers)) = 1 \<and>
   results_of calm_world ''HELLO'' (globals_start both_controllers) = [] \<and>
   results_of calm_world ''MOVE/X'' (globals_start both_controllers) = [] \<and>
   results_of calm_world ''STATUS'' (mqtt_on_disconnect (globals_start both_controllers)) = [] \<and>
   length (results_of calm_world ''MOVE/R/90000'' (globals_start no_controllers)) = 1 \<and>
   length (results_of calm_world ''STOP/X'' (globals_start both_controllers)) = 1 \<and>
   length (results_of calm_world ''SET_RATE/2000'' (globals_start both_controllers)) = 1"
proof -
  let ?g = "globals_start both_controllers"
  have con: "g_mqtt_connected ?g" "g_mqtt_connected (globals_start no_controllers)"
    "\<not> g_mqtt_connected (mqtt_on_disconnect ?g)"
    by (simp_all add: globals_start_def mqtt_on_disconnect_def)
  have pre: "starts_with ''MOVE/'' ''MOVE/X''" "starts_with ''MOVE/'' ''MOVE/R/90000''"
    "starts_with ''STOP/'' ''STOP/X''" "starts_with ''SET_RATE/'' ''SET_RATE/2000''"
    "\<not> starts_with ''SET_RATE/'' ''HELLO''" "\<not> starts_with ''SET_AMP/'' ''HELLO''"
    "\<not> starts_with ''SET_FREQ/'' ''HELLO''" "\<not> starts_with ''MOVE/'' ''HELLO''"
    "\<not> starts_with ''STOP/'' ''HELLO''"
    by (simp_all add: starts_with_def)
  have gl: "getline3 ''MOVE/X'' = None" "getline3 ''MOVE/R/90000'' \<noteq> None"
    "getline2 ''STOP/X'' = Some (''STOP'', ''X'')" "getline2 ''SET_RATE/2000'' \<noteq> None"
    by (simp_all add: getline3_def getline2_def getline_def istringstream_of_def)
  have ax: "map_axis ''X'' = (0, 0, True)" "connected (g_controllers ?g (nat 0))"
    "axes_connected (g_controllers ?g (nat 0)) (nat 0)"
    by (simp_all add: map_axis_def globals_start_def both_controllers_def)
  show ?thesis
    using con pre gl ax
      at_most_one_result_per_command [where w = calm_world and cmd = "''STATUS''" and g = ?g]
      at_most_one_result_per_command [where w = calm_world and cmd = "''HELLO''" and g = ?g]
      at_most_one_result_per_command [where w = calm_world and cmd = "''MOVE/X''" and g = ?g]
      at_most_one_result_per_command [where w = calm_world and cmd = "''STATUS''"
        and g = "mqtt_on_disconnect ?g"]
      at_most_one_result_per_command [where w = calm_world and cmd = "''MOVE/R/90000''"
        and g = "globals_start no_controllers"]
      at_most_one_result_per_command [where w = calm_world and cmd = "''STOP/X''" and g = ?g
        and axis_str = "''X''" and controller = 0 and axis = 0 and a = "''STOP''"]
      at_most_one_result_per_command [where w = calm_world and cmd = "''SET_RATE/2000''"
        and g = ?g]
    by simp
qed

section \<open>The axis mapping\<close>

lemma handle_STOP_connected:
  assumes "getline2 cmd = Some (stop_cmd, axis_str)"
    and "map_axis axis_str = (controller, axis, True)"
  shows "ecc_log (handle_STOP w cmd g) =
     ecc_log g @
     (if connected (g_controllers g (nat controller)) \<and>
         axes_connected (g_controllers g (nat controller)) (nat axis)
      then [Call_controlMove (handle (g_controllers g (nat controller))) axis 0]
      else [])"
  using assms map_axis_valid(2,3) [OF assms(2)]
  by (simp add: handle_STOP_def Let_def)

lemma calls_of_STOP:
  assumes "map_axis axis_str = (controller, axis, True)"
  shows "calls_of w (''STOP/'' @ axis_str) g =
     (if connected (g_controllers g (nat controller)) \<and>
         axes_connected (g_controllers g (nat controller)) (nat axis)
      then [Call_controlMove (handle (g_controllers g (nat controller))) axis 0]
      else [])"
proof -
  have ne: "axis_str \<noteq> []" "takeWhile (\<lambda>c. c \<noteq> CHR 0x0A) axis_str = axis_str"
    using assms by (auto simp: map_axis_def split: if_splits)
  have p: "getline2 (''STOP/'' @ axis_str) = Some (''STOP'', axis_str)"
    using getline2_fields [of "''STOP''" axis_str] ne by simp
  have s: "starts_with ''STOP/'' (''STOP/'' @ axis_str)" by (simp add: starts_with_def)
  show ?thesis
    unfolding calls_of_def process_command_prefix(5) [OF s] handle_STOP_connected [OF p assms]
    by simp
qed

text \<open>
  Claim C3, as amended. The program has one mapping of axis names, used by the sampler,
  by every axis command of the dispatcher and by \<open>get_axis_name\<close>: X is axis 0 and Y is
  axis 1 of the controller in slot 0, Z is axis 2 of that controller, and R is axis 0 of
  the controller in slot 1. The sampler reads each position from that axis, and a STOP
  (as every axis command) addresses that axis.
\<close>

theorem axis_mapping_X0_Y1:
  "map_axis ''X'' = (0, 0, True) \<and> map_axis ''Y'' = (0, 1, True) \<and>
   map_axis ''Z'' = (0, 2, True) \<and> map_axis ''R'' = (1, 0, True) \<and>
   get_axis_name 0 0 = ''X'' \<and> get_axis_name 0 1 = ''Y'' \<and>
   get_axis_name 0 2 = ''Z'' \<and> get_axis_name 1 0 = ''R'' \<and>
   (let c0 = g_controllers g 0; c1 = g_controllers g 1; s = read_all_positions_fast w g
    in x_position s =
         (if connected c0 \<and> axes_connected c0 0 \<and> fst (ECC_getPosition w (handle c0) 0) = 0
          then snd (ECC_getPosition w (handle c0) 0) else 0) \<and>
       y_position s =
         (if connected c0 \<and> axes_connected c0 1 \<and> fst (ECC_getPosition w (handle c0) 1) = 0
          then snd (ECC_getPosition w (handle c0) 1) else 0) \<and>
       z_position s =
         (if connected c0 \<and> axes_connected c0 2 \<and> fst (ECC_getPosition w (handle c0) 2) = 0
          then snd (ECC_getPosition w (handle c0) 2) else 0) \<and>
       r_position s =
         (if connected c1 \<and> axes_connected c1 0 \<and> fst (ECC_getPosition w (handle c1) 0) = 0
          then snd (ECC_getPosition w (handle c1) 0) else 0) \<and>
       calls_of w ''STOP/X'' g =
         (if connected c0 \<and> axes_connected c0 0 then [Call_controlMove (handle c0) 0 0] else []) \<and>
       calls_of w ''STOP/Y'' g =
         (if connected c0 \<and> axes_connected c0 1 then [Call_controlMove (handle c0) 1 0] else []) \<and>
       calls_of w ''STOP/Z'' g =
         (if connected c0 \<and> axes_connected c0 2 then [Call_controlMove (handle c0) 2 0] else []) \<and>
       calls_of w ''STOP/R'' g =
         (if connected c1 \<and> axes_connected c1 0 then [Call_controlMove (handle c1) 0 0] else []))"
proof -
  have m: "map_axis ''X'' = (0, 0, True)" "map_axis ''Y'' = (0, 1, True)"
    "map_axis ''Z'' = (0, 2, True)" "map_axis ''R'' = (1, 0, True)"
    by (simp_all add: map_axis_def)
  have n: "get_axis_name 0 0 = ''X''" "get_axis_name 0 1 = ''Y''"
    "get_axis_name 0 2 = ''Z''" "get_axis_name 1 0 = ''R''"
    by (simp_all add: get_axis_name_def)
  have s: "x_position (read_all_positions_fast w g) =
         (if connected (g_controllers g 0) \<and> axes_connected (g_controllers g 0) 0 \<and>
             fst (ECC_getPosition w (handle (g_controllers g 0)) 0) = 0
          then snd (ECC_getPosition w (handle (g_controllers g 0)) 0) else 0)"
    "y_position (read_all_positions_fast w g) =
         (if connected (g_controllers g 0) \<and> axes_connected (g_controllers g 0) 1 \<and>
             fst (ECC_getPosition w (handle (g_controllers g 0)) 1) = 0
          then snd (ECC_getPosition w (handle (g_controllers g 0)) 1) else 0)"
    "z_position (read_all_positions_fast w g) =
         (if connected (g_controllers g 0) \<and> axes_connected (g_controllers g 0) 2 \<and>
             fst (ECC_getPosition w (handle (g_controllers g 0)) 2) = 0
          then snd (ECC_getPosition w (handle (g_controllers g 0)) 2) else 0)"
    "r_position (read_all_positions_fast w g) =
         (if connected (g_controllers g 1) \<and> axes_connected (g_controllers g 1) 0 \<and>
             fst (ECC_getPosition w (handle (g_controllers g 1)) 0) = 0
          then snd (ECC_getPosition w (handle (g_controllers g 1)) 0) else 0)"
    by (auto simp: read_all_positions_fast_def Let_def PositionSample_default_def)
  have c: "calls_of w ''STOP/X'' g =
         (if connected (g_controllers g 0) \<and> axes_connected (g_controllers g 0) 0
          then [Call_controlMove (handle (g_controllers g 0)) 0 0] else [])"
    "calls_of w ''STOP/Y'' g =
         (if connected (g_controllers g 0) \<and> axes_connected (g_controllers g 0) 1
          then [Call_controlMove (handle (g_controllers g 0)) 1 0] else [])"
    "calls_of w ''STOP/Z'' g =
         (if connected (g_controllers g 0) \<and> axes_connected (g_controllers g 0) 2
          then [Call_controlMove (handle (g_controllers g 0)) 2 0] else [])"
    "calls_of w ''STOP/R'' g =
         (if connected (g_controllers g 1) \<and> axes_connected (g_controllers g 1) 0
          then [Call_controlMove (handle (g_controllers g 1)) 0 0] else [])"
    using calls_of_STOP [OF m(1), of w g] calls_of_STOP [OF m(2), of w g]
      calls_of_STOP [OF m(3), of w g] calls_of_STOP [OF m(4), of w g]
    by simp_all
  show ?thesis
    unfolding Let_def by (intro conjI m n s c)
qed

text \<open>
  The claim has X at axis 1 and Y at axis 0. In the program X is axis 0 and Y is
  axis 1: \<open>MOVE/X/5\<close> drives axis 0 of the first controller and \<open>MOVE/Y/5\<close> its axis 1.
\<close>

theorem axis_mapping_X1_Y0_counterexample:
  "map_axis ''X'' = (0, 0, True) \<and> map_axis ''Y'' = (0, 1, True) \<and>
   map_axis ''X'' \<noteq> (0, 1, True) \<and> map_axis ''Y'' \<noteq> (0, 0, True) \<and>
   calls_of calm_world ''MOVE/X/5'' (globals_start both_controllers) =
     [Call_controlTargetPosition 0 0 5, Call_controlMove 0 0 1] \<and>
   calls_of calm_world ''MOVE/Y/5'' (globals_start both_controllers) =
     [Call_controlTargetPosition 0 1 5, Call_controlMove 0 1 1]"
  by (simp add: calls_of_def process_command_def starts_with_def handle_MOVE_def
        getline3_def getline_def istringstream_of_def map_axis_def atoi_def strtol_def number_read_def isspace_def
        isdigit_def globals_start_def both_controllers_def calm_world_def
        publish_result_def ecc_call_made_def Let_def)

section \<open>The sampler's interval\<close>

lemma sampler_iteration_target_interval:
  "target_interval (fst (sampler_iteration w (sl, g))) = target_interval sl"
  by (simp add: sampler_iteration_def sampler_tick_def Let_def split: prod.split bool.split)

lemma step_target_interval: "target_interval (fst (step s e)) = target_interval (fst s)"
proof -
  obtain sl pl g where s: "s = (sl, pl, g)" by (cases s)
  show ?thesis
  proof (cases e)
    case (SamplerTick w)
    then show ?thesis
      using sampler_iteration_target_interval [of w sl g]
      by (auto simp: s split: prod.split)
  next
    case (PublisherPeriod w)
    then show ?thesis by (simp add: s split: prod.split)
  qed (simp_all add: s)
qed

lemma run_target_interval: "target_interval (fst (run s evs)) = target_interval (fst s)"
  unfolding run_def
  by (induction evs arbitrary: s) (simp_all add: step_target_interval)

text \<open>
  Claim C2 fails on the program. The sampler copies the interval into the constant
  \<open>target_interval\<close> before its loop and never reads \<open>g_sample_interval_ns\<close> again: after
  every run its interval is the one of the start, 12500000 ns (80 Hz). In the run where
  \<open>SET_RATE/2000\<close> arrives, is accepted and answered with SUCCESS, the globals hold the
  new rate and the interval 500000 ns, and the next pass of the sampler still moves its
  deadline on by 12500000 ns.
\<close>

theorem sampler_interval_fixed_at_start:
  "target_interval (fst (run (system_start ctrls now) evs)) = 12500000 \<and>
   (case run (system_start both_controllers 0)
           [OnMessage (Some ''SET_RATE/2000''), CommandIteration calm_world,
            SamplerTick calm_world] of
      (sl, pl, g) \<Rightarrow>
        g_sample_rate_hz g = 2000 \<and> g_sample_interval_ns g = 500000 \<and>
        mqtt_log g =
          [Publish ''microscope/stage/result''
             ''0/COMMAND/SET_RATE/ALL/SUCCESS/Sampling rate set to 2000 Hz'' 1] \<and>
        target_interval sl = 12500000 \<and> next_sample_time sl = 12500000)"
proof -
  have a: "target_interval (fst (run (system_start ctrls now) evs)) = 12500000"
    by (simp add: run_target_interval system_start_def sampler_start_def globals_start_def)
  have b: "case run (system_start both_controllers 0)
           [OnMessage (Some ''SET_RATE/2000''), CommandIteration calm_world,
            SamplerTick calm_world] of
      (sl, pl, g) \<Rightarrow>
        g_sample_rate_hz g = 2000 \<and> g_sample_interval_ns g = 500000 \<and>
        mqtt_log g =
          [Publish ''microscope/stage/result''
             ''0/COMMAND/SET_RATE/ALL/SUCCESS/Sampling rate set to 2000 Hz'' 1] \<and>
        target_interval sl = 12500000 \<and> next_sample_time sl = 12500000"
    by (simp add: run_def system_start_def globals_start_def sampler_start_def
          mqtt_on_message_def command_processor_iteration_def process_command_def
          starts_with_def handle_SET_RATE_def getline2_def getline_def istringstream_of_def
          atoi_def strtol_def number_read_def isspace_def isdigit_def publish_result_def to_string_def
          uint64_to_string_def calm_world_def MQTT_TOPIC_RESULT_def
          sampler_iteration_def sampler_tick_def first_write LockFreeBuffer_init_def Let_def)
  show ?thesis using a b by simp
qed

section \<open>The command queue\<close>

lemma queue_after_messages:
  "g_command_queue (snd (snd (run s (map (\<lambda>p. OnMessage (Some p)) ps)))) =
     g_command_queue (snd (snd s)) @ ps"
proof (induction ps arbitrary: s)
  case Nil
  show ?case by (simp add: run_def)
next
  case (Cons p ps)
  obtain sl pl g where s: "s = (sl, pl, g)" by (cases s)
  have "run s (map (\<lambda>p. OnMessage (Some p)) (p # ps)) =
        run (sl, pl, mqtt_on_message (Some p) g) (map (\<lambda>p. OnMessage (Some p)) ps)"
    by (simp add: run_def s)
  then show ?case
    using Cons.IH [of "(sl, pl, mqtt_on_message (Some p) g)"]
    by (simp add: s mqtt_on_message_def)
qed

lemma queue_after_iteration:
  "g_command_queue (command_processor_iteration w g) = tl (g_command_queue g)"
proof (cases "g_command_queue g")
  case Nil
  then show ?thesis by (simp add: command_processor_iteration_def)
next
  case (Cons cmd rest)
  then show ?thesis
    using process_command_frame [of "g\<lparr>g_command_queue := rest\<rparr>" w cmd]
    by (simp add: command_processor_iteration_def dispatcher_frame_def)
qed

text \<open>
  Claim C8, as amended. The command queue has no capacity: the callback appends every
  payload that arrives, in order, whatever the length of the queue, and drops none; a
  null payload changes nothing; and a command leaves the queue only at the front, one
  in each pass of the dispatcher. The program has no overflow counter.
\<close>

theorem command_queue_unbounded:
  "g_command_queue (snd (snd (run s (map (\<lambda>p. OnMessage (Some p)) ps)))) =
     g_command_queue (snd (snd s)) @ ps \<and>
   mqtt_on_message (Some p) g = g\<lparr>g_command_queue := g_command_queue g @ [p]\<rparr> \<and>
   mqtt_on_message None g = g \<and>
   g_command_queue (command_processor_iteration w g) = tl (g_command_queue g)"
  using queue_after_messages [of s ps] queue_after_iteration [of w g]
  by (simp add: mqtt_on_message_def)

text \<open>
  The claim fails: no capacity bounds the queue. Against any capacity, that many
  payloads and one more, arriving before the dispatcher runs, are all in the queue.
\<close>

theorem command_queue_bounded_counterexample:
  "\<not> (\<exists>capacity. \<forall>ps.
        length (g_command_queue (snd (snd
          (run (system_start no_controllers 0) (map (\<lambda>p. OnMessage (Some p)) ps)))))
        \<le> capacity)"
proof
  assume "\<exists>capacity. \<forall>ps.
        length (g_command_queue (snd (snd
          (run (system_start no_controllers 0) (map (\<lambda>p. OnMessage (Some p)) ps)))))
        \<le> capacity"
  then obtain capacity where b: "\<And>ps.
        length (g_command_queue (snd (snd
          (run (system_start no_controllers 0) (map (\<lambda>p. OnMessage (Some p)) ps)))))
        \<le> capacity" by blast
  have "length (g_command_queue (snd (snd
          (run (system_start no_controllers 0)
             (map (\<lambda>p. OnMessage (Some p)) (replicate (Suc capacity) ''STATUS'')))))) =
        Suc capacity"
    unfolding queue_after_messages
    by (simp add: system_start_def globals_start_def)
  with b [of "replicate (Suc capacity) ''STATUS''"] show False by simp
qed


section \<open>The position of a MOVE command\<close>

lemma atoi_digits_stop: "r = [] \<or> \<not> isdigit (hd r) \<Longrightarrow> atoi_digits r acc = acc"
  by (cases r) auto

lemma number_read_decimal_int_then:
  assumes "r = [] \<or> \<not> isdigit (hd r)"
  shows "number_read (decimal_int i @ r) = i"
proof -
  have d: "atoi_digits (decimal_nat n @ r) 0 = int n" for n
    using atoi_digits_decimal_nat [of n r 0] atoi_digits_stop [OF assms] by simp
  show ?thesis
  proof (cases "i < 0")
    case True
    then show ?thesis
      by (simp add: decimal_int_def number_read_def isspace_def d)
  next
    case False
    obtain c cs where dn: "decimal_nat (nat i) = c # cs"
      using decimal_nat_nonempty [of "nat i"] by (cases "decimal_nat (nat i)") auto
    then have "isdigit c" using decimal_nat_digits [of c "nat i"] by simp
    note pl = isdigit_plain [OF this]
    have "number_read ((c # cs) @ r) = atoi_digits ((c # cs) @ r) 0"
      using pl by (simp add: number_read_def)
    then show ?thesis
      using False d [of "nat i"] by (simp add: decimal_int_def dn)
  qed
qed

lemma atoi_decimal_int_then:
  assumes "- 2147483648 \<le> i" and "i \<le> 2147483647" and "r = [] \<or> \<not> isdigit (hd r)"
  shows "atoi (takeWhile (\<lambda>c. c \<noteq> CHR 0x0A) (decimal_int i @ r)) = i"
proof -
  let ?P = "\<lambda>c. c \<noteq> CHR 0x0A"
  have "\<forall>c \<in> set (decimal_int i). ?P c"
    using decimal_nat_digits isdigit_plain(4) by (auto simp: decimal_int_def)
  then have tw: "takeWhile ?P (decimal_int i @ r) = decimal_int i @ takeWhile ?P r"
    by (simp add: takeWhile_append2)
  have stop: "takeWhile ?P r = [] \<or> \<not> isdigit (hd (takeWhile ?P r))"
    using assms(3) by (cases r) auto
  have "strtol (decimal_int i @ takeWhile ?P r) = i"
    using assms(1,2) by (simp add: strtol_def number_read_decimal_int_then [OF stop])
  moreover have "sint (word_of_int i :: 32 word) = i"
  proof -
    have "signed_take_bit 31 i = i"
      using assms(1,2) by (intro signed_take_bit_int_eq_self) simp_all
    then show ?thesis by (simp add: sint_sbintrunc')
  qed
  ultimately show ?thesis by (simp add: atoi_def tw)
qed

lemma MOVE_empty_position:
  assumes "map_axis axis_str = (controller, axis, True)"
  shows "process_command w (''MOVE/'' @ axis_str @ ''/'') g = g"
proof -
  have "getline3 (''MOVE/'' @ axis_str @ ''/'' @ []) = None"
    using getline3_MOVE [OF map_axis_valid(1) [OF assms], of "[]"] by simp
  then have "getline3 (''MOVE/'' @ axis_str @ ''/'') = None" by simp
  then show ?thesis
    unfolding process_command_MOVE by (simp add: handle_MOVE_def)
qed

text \<open>
  Claim C10, as amended. For a command \<open>MOVE/<axis>/<token>\<close> addressed to a connected
  axis the dispatcher converts the token with \<open>atoi\<close> and checks nothing else, so no token
  but the empty one is rejected. A token that is not empty and has no leading integer
  (after optional white space and sign comes no digit, as in \<open>abc\<close>) is treated as
  position 0: the target position is set to 0 and, when the driver accepts it, movement
  is enabled. A token that is the decimal representation of an integer \<open>n\<close> in the
  range of \<open>int\<close>, followed by characters that do not begin with a digit (as in \<open>12abc\<close>
  or \<open>1.5\<close>), is treated as position \<open>n\<close>. With an empty token the fields of the command
  cannot be read: no driver call is made and no result is published. In the first two
  cases the result, when both calls succeed and the bus is connected, is a SUCCESS.
\<close>

theorem MOVE_position_read_by_atoi:
  assumes "map_axis axis_str = (controller, axis, True)"
    and "connected (g_controllers g (nat controller))"
    and "axes_connected (g_controllers g (nat controller)) (nat axis)"
  shows "(let h = handle (g_controllers g (nat controller));
              cmd = ''MOVE/'' @ axis_str @ ''/'' @ token
          in (token \<noteq> [] \<and> \<not> leading_integer token \<longrightarrow>
                calls_of w cmd g =
                  (if ECC_controlTargetPosition w h axis 0 = 0
                   then [Call_controlTargetPosition h axis 0, Call_controlMove h axis 1]
                   else [Call_controlTargetPosition h axis 0])) \<and>
             (- 2147483648 \<le> n \<and> n \<le> 2147483647 \<and> (r = [] \<or> \<not> isdigit (hd r)) \<and>
              token = decimal_int n @ r \<longrightarrow>
                calls_of w cmd g =
                  (if ECC_controlTargetPosition w h axis (word_of_int n) = 0
                   then [Call_controlTargetPosition h axis (word_of_int n),
                         Call_controlMove h axis 1]
                   else [Call_controlTargetPosition h axis (word_of_int n)])) \<and>
             (token = [] \<longrightarrow> calls_of w cmd g = [] \<and> results_of w cmd g = []) \<and>
             (token \<noteq> [] \<and> g_mqtt_connected g \<and>
              ECC_controlTargetPosition w h axis
                (word_of_int (atoi (takeWhile (\<lambda>c. c \<noteq> CHR 0x0A) token))) = 0 \<and>
              ECC_controlMove w h axis 1 = 0 \<longrightarrow>
                results_of w cmd g =
                  [Publish MQTT_TOPIC_RESULT
                     (to_string (get_nanosecond_timestamp w) @ ''/COMMAND/MOVE/'' @ axis_str @
                      ''/SUCCESS/Movement started to '' @
                      takeWhile (\<lambda>c. c \<noteq> CHR 0x0A) token) 1]))"
proof -
  let ?h = "handle (g_controllers g (nat controller))"
  let ?cmd = "''MOVE/'' @ axis_str @ ''/'' @ token"
  have c1: "token \<noteq> [] \<and> \<not> leading_integer token \<longrightarrow>
                calls_of w ?cmd g =
                  (if ECC_controlTargetPosition w ?h axis 0 = 0
                   then [Call_controlTargetPosition ?h axis 0, Call_controlMove ?h axis 1]
                   else [Call_controlTargetPosition ?h axis 0])"
  proof (intro impI, elim conjE)
    assume t: "token \<noteq> []" and l: "\<not> leading_integer token"
    show "calls_of w ?cmd g =
                  (if ECC_controlTargetPosition w ?h axis 0 = 0
                   then [Call_controlTargetPosition ?h axis 0, Call_controlMove ?h axis 1]
                   else [Call_controlTargetPosition ?h axis 0])"
      using MOVE_connected_effects(1) [OF assms t, of w]
        atoi_line_no_integer [OF l, of "\<lambda>c. c \<noteq> CHR 0x0A"]
      by (simp add: Let_def)
  qed
  have c2: "- 2147483648 \<le> n \<and> n \<le> 2147483647 \<and> (r = [] \<or> \<not> isdigit (hd r)) \<and>
              token = decimal_int n @ r \<longrightarrow>
                calls_of w ?cmd g =
                  (if ECC_controlTargetPosition w ?h axis (word_of_int n) = 0
                   then [Call_controlTargetPosition ?h axis (word_of_int n),
                         Call_controlMove ?h axis 1]
                   else [Call_controlTargetPosition ?h axis (word_of_int n)])"
  proof (intro impI, elim conjE)
    assume n: "- 2147483648 \<le> n" "n \<le> 2147483647" and r: "r = [] \<or> \<not> isdigit (hd r)"
      and tok: "token = decimal_int n @ r"
    have t: "token \<noteq> []" using tok decimal_int_line(1) [of n] by simp
    have a: "atoi (takeWhile (\<lambda>c. c \<noteq> CHR 0x0A) token) = n"
      unfolding tok using n r by (rule atoi_decimal_int_then)
    show "calls_of w ?cmd g =
                  (if ECC_controlTargetPosition w ?h axis (word_of_int n) = 0
                   then [Call_controlTargetPosition ?h axis (word_of_int n),
                         Call_controlMove ?h axis 1]
                   else [Call_controlTargetPosition ?h axis (word_of_int n)])"
      using MOVE_connected_effects(1) [OF assms t, of w]
      by (simp add: Let_def a)
  qed
  have c3: "token = [] \<longrightarrow> calls_of w ?cmd g = [] \<and> results_of w ?cmd g = []"
    using MOVE_empty_position [OF assms(1), of w g]
    by (auto simp: calls_of_def results_of_def)
  have c4: "token \<noteq> [] \<and> g_mqtt_connected g \<and>
              ECC_controlTargetPosition w ?h axis
                (word_of_int (atoi (takeWhile (\<lambda>c. c \<noteq> CHR 0x0A) token))) = 0 \<and>
              ECC_controlMove w ?h axis 1 = 0 \<longrightarrow>
                results_of w ?cmd g =
                  [Publish MQTT_TOPIC_RESULT
                     (to_string (get_nanosecond_timestamp w) @ ''/COMMAND/MOVE/'' @ axis_str @
                      ''/SUCCESS/Movement started to '' @
                      takeWhile (\<lambda>c. c \<noteq> CHR 0x0A) token) 1]"
  proof (intro impI, elim conjE)
    assume t: "token \<noteq> []" and b: "g_mqtt_connected g"
      and r1: "ECC_controlTargetPosition w ?h axis
                (word_of_int (atoi (takeWhile (\<lambda>c. c \<noteq> CHR 0x0A) token))) = 0"
      and r2: "ECC_controlMove w ?h axis 1 = 0"
    show "results_of w ?cmd g =
                  [Publish MQTT_TOPIC_RESULT
                     (to_string (get_nanosecond_timestamp w) @ ''/COMMAND/MOVE/'' @ axis_str @
                      ''/SUCCESS/Movement started to '' @
                      takeWhile (\<lambda>c. c \<noteq> CHR 0x0A) token) 1]"
      using MOVE_connected_effects(2) [OF assms t, of w] b r1 r2
      by (simp add: Let_def)
  qed
  show ?thesis
    unfolding Let_def by (intro conjI c1 c2 c3 c4)
qed

text \<open>
  The claim fails at tokens that are not integers and are not treated as position 0:
  \<open>MOVE/X/12abc\<close> drives axis X to 12 and \<open>MOVE/X/1.5\<close> drives it to 1. It fails also
  at the empty token: \<open>MOVE/X/\<close> is dropped, with no driver call and no result.
\<close>

theorem MOVE_partial_number_counterexample:
  "calls_of calm_world ''MOVE/X/12abc'' (globals_start both_controllers) =
     [Call_controlTargetPosition 0 0 12, Call_controlMove 0 0 1] \<and>
   calls_of calm_world ''MOVE/X/1.5'' (globals_start both_controllers) =
     [Call_controlTargetPosition 0 0 1, Call_controlMove 0 0 1] \<and>
   calls_of calm_world ''MOVE/X/'' (globals_start both_controllers) = [] \<and>
   results_of calm_world ''MOVE/X/'' (globals_start both_controllers) = []"
  by (simp add: calls_of_def results_of_def process_command_def starts_with_def handle_MOVE_def
        getline3_def getline_def istringstream_of_def map_axis_def atoi_def strtol_def
        number_read_def isspace_def isdigit_def globals_start_def both_controllers_def
        calm_world_def publish_result_def ecc_call_made_def Let_def)

text \<open>
  The amended claim at \<open>MOVE/X/abc\<close>, \<open>MOVE/X/12abc\<close> and \<open>MOVE/X/\<close>, with both
  controllers connected and a driver that accepts every call.
\<close>

theorem MOVE_position_read_by_atoi_witness:
  "calls_of calm_world ''MOVE/X/abc'' (globals_start both_controllers) =
     [Call_controlTargetPosition 0 0 0, Call_controlMove 0 0 1] \<and>
   results_of calm_world ''MOVE/X/abc'' (globals_start both_controllers) =
     [Publish ''microscope/stage/result''
        ''0/COMMAND/MOVE/X/SUCCESS/Movement started to abc'' 1] \<and>
   calls_of calm_world ''MOVE/X/12abc'' (globals_start both_controllers) =
     [Call_controlTargetPosition 0 0 12, Call_controlMove 0 0 1] \<and>
   calls_of calm_world ''MOVE/X/'' (globals_start both_controllers) = [] \<and>
   results_of calm_world ''MOVE/X/'' (globals_start both_controllers) = []"
proof -
  let ?g = "globals_start both_controllers"
  have h: "map_axis ''X'' = (0, 0, True)"
    "connected (g_controllers ?g (nat 0))"
    "axes_connected (g_controllers ?g (nat 0)) (nat 0)"
    by (simp_all add: map_axis_def globals_start_def both_controllers_def)
  have t: "''abc'' \<noteq> []" "\<not> leading_integer ''abc''"
    "''abc'' = [] \<or> \<not> isdigit (hd ''abc'')"
    "- 2147483648 \<le> (12 :: int)" "(12 :: int) \<le> 2147483647"
    by (simp_all add: leading_integer_def isspace_def isdigit_def)
  have d: "decimal_int 12 = ''12''" by code_simp
  have a: "atoi ''abc'' = 0"
    by (simp add: atoi_def strtol_def number_read_def isspace_def isdigit_def)
  have b: "g_mqtt_connected ?g" by (simp add: globals_start_def)
  show ?thesis
    using h t b
      MOVE_position_read_by_atoi [OF h, where w = calm_world and token = "''abc''"
        and n = 0 and r = "[]"]
      MOVE_position_read_by_atoi [OF h, where w = calm_world and token = "''12abc''"
        and n = 12 and r = "''abc''"]
      MOVE_position_read_by_atoi [OF h, where w = calm_world and token = "[]"
        and n = 0 and r = "[]"]
    by (simp add: d a Let_def globals_start_def both_controllers_def calm_world_def
          to_string_def uint64_to_string_def MQTT_TOPIC_RESULT_def)
qed


section \<open>Formatting positions\<close>

lemma digit_char_nat: "0 \<le> d \<Longrightarrow> digit_char d = char_of (48 + nat d)"
proof -
  assume "0 \<le> d"
  then have "48 + d = int (48 + nat d)" by simp
  then show ?thesis unfolding digit_char_def by (simp only: char_of_nat)
qed

lemma temp_digits_decimal: "0 < v \<Longrightarrow> rev (temp_digits v) = decimal_nat (nat v)"
proof (induction v rule: temp_digits.induct)
  case (1 v)
  have d: "digit_char (v mod 10) = char_of (48 + nat v mod 10)"
    using "1.prems" by (simp add: digit_char_nat nat_mod_distrib)
  have dv: "nat (v div 10) = nat v div 10"
    using "1.prems" by (simp add: nat_div_distrib)
  show ?case
  proof (cases "v < 10")
    case True
    then have "v div 10 = 0" using "1.prems" by simp
    then have t: "temp_digits v = [digit_char (v mod 10)]"
      using "1.prems" by (simp add: temp_digits.simps [of v] temp_digits.simps [of 0])
    have lt: "nat v < 10" using True "1.prems" by simp
    then have m: "nat v mod 10 = nat v" by simp
    have "decimal_nat (nat v) = [char_of (48 + nat v)]"
      using lt by (simp add: decimal_nat.simps [of "nat v"])
    then show ?thesis
      using d by (simp only: t m rev.simps append_Nil)
  next
    case False
    then have pos: "0 < v div 10" by simp
    have "rev (temp_digits v) = rev (temp_digits (v div 10)) @ [digit_char (v mod 10)]"
      using "1.prems" by (simp add: temp_digits.simps [of v])
    also have "\<dots> = decimal_nat (nat v div 10) @ [char_of (48 + nat v mod 10)]"
      using "1.IH" [OF "1.prems" pos] by (simp add: d dv)
    also have "\<dots> = decimal_nat (nat v)"
    proof -
      have "\<not> nat v < 10" using False by simp
      then show ?thesis by (simp add: decimal_nat.simps [of "nat v"])
    qed
    finally show ?thesis .
  qed
qed

lemma decimal_nat_0: "decimal_nat 0 = ''0''"
  by code_simp

lemma uint64_to_string_decimal: "uint64_to_string v = decimal_nat (unat v)"
proof (cases "v = 0")
  case True
  then show ?thesis by (simp add: uint64_to_string_def decimal_nat_0)
next
  case False
  then have "uint v \<noteq> 0" by (simp add: uint_0_iff)
  moreover have "0 \<le> uint v" by (rule uint_nonnegative)
  ultimately have "0 < uint v" by linarith
  from temp_digits_decimal [OF this] False show ?thesis
    by (simp add: uint64_to_string_def)
qed

lemma int32_to_string_decimal:
  fixes v :: "32 word"
  assumes "sint v \<noteq> - 2147483648"
  shows "int32_to_string v = Some (decimal_int (sint v))"
proof -
  have lo: "- 2147483648 \<le> sint v"
    using sint_ge [of v] by simp
  show ?thesis
  proof (cases "sint v < 0")
    case True
    have pos: "0 < - sint v" using True by simp
    have small: "\<not> - sint v > 2147483647" using lo assms by simp
    show ?thesis
      using True small pos temp_digits_decimal [OF pos]
      by (simp add: int32_to_string_def decimal_int_def)
  next
    case False
    show ?thesis
    proof (cases "sint v = 0")
      case True
      then show ?thesis by (simp add: int32_to_string_def decimal_int_def decimal_nat_0)
    next
      case nz: False
      with False have pos: "0 < sint v" by simp
      show ?thesis
        using False nz temp_digits_decimal [OF pos]
        by (simp add: int32_to_string_def decimal_int_def)
    qed
  qed
qed

lemma int32_to_string_min: "int32_to_string (- 2147483648) = None"
  by (simp add: int32_to_string_def)

lemma sint_min_32: "sint (v :: 32 word) = - 2147483648 \<longleftrightarrow> v = - 2147483648"
proof
  assume "sint v = - 2147483648"
  then have "sint v = sint (- 2147483648 :: 32 word)" by simp
  then show "v = - 2147483648" by (simp only: word_eq_iff_signed [symmetric])
next
  assume "v = - 2147483648"
  then show "sint v = - 2147483648" by simp
qed

lemma format_field_decimal:
  "format_field m b v =
     (if m AND b = 0 then Some ''NaN''
      else if v = - 2147483648 then None
      else Some (decimal_int (sint v)))"
  using int32_to_string_decimal [of v] sint_min_32 [of v]
  by (auto simp: format_field_def int32_to_string_min)

lemma decimal_int_min: "decimal_int (- 2147483648) = ''-2147483648''"
proof -
  have "decimal_nat (nat 2147483648) = rev (temp_digits 2147483648)"
    by (rule temp_digits_decimal [symmetric]) simp
  also have "\<dots> = ''2147483648''"
    by (simp add: temp_digits.simps digit_char_def char_of_def)
  finally show ?thesis by (simp add: decimal_int_def)
qed

text \<open>
  Claim C6 is not met by the code at one value. Where no valid field holds the least
  32-bit value, the formatted line is as the claim has it: the decimal time stamp and
  four fields separated by slashes, a field being \<open>NaN\<close> when its bit is clear and the
  decimal representation of the position when its bit is set. That covers the greatest
  value and every negative one down to \<open>-2147483647\<close>. Where a valid field holds the least
  value \<open>-2147483648\<close>, \<open>int32_to_string\<close> negates it in an \<open>int32_t\<close>; the negation
  overflows, the behaviour of the program is undefined, and the code determines no line
  at all, where the claim has the field \<open>-2147483648\<close>.
\<close>

theorem format_position_undefined_at_least_int32:
  "format_position s =
     (if (valid_mask s AND 1 \<noteq> 0 \<and> x_position s = - 2147483648) \<or>
         (valid_mask s AND 2 \<noteq> 0 \<and> y_position s = - 2147483648) \<or>
         (valid_mask s AND 4 \<noteq> 0 \<and> z_position s = - 2147483648) \<or>
         (valid_mask s AND 8 \<noteq> 0 \<and> r_position s = - 2147483648)
      then None
      else Some (decimal_nat (unat (timestamp_ns s)) @ ''/'' @
                 (if valid_mask s AND 1 = 0 then ''NaN''
                  else decimal_int (sint (x_position s))) @ ''/'' @
                 (if valid_mask s AND 2 = 0 then ''NaN''
                  else decimal_int (sint (y_position s))) @ ''/'' @
                 (if valid_mask s AND 4 = 0 then ''NaN''
                  else decimal_int (sint (z_position s))) @ ''/'' @
                 (if valid_mask s AND 8 = 0 then ''NaN''
                  else decimal_int (sint (r_position s))))) \<and>
   format_position
     \<lparr>timestamp_ns = 0, x_position = - 2147483648, y_position = 2147483647,
      z_position = 0, r_position = 0, valid_mask = 3\<rparr> = None \<and>
   format_position
     \<lparr>timestamp_ns = 0, x_position = - 2147483647, y_position = 2147483647,
      z_position = 0, r_position = 0, valid_mask = 3\<rparr> =
     Some ''0/-2147483647/2147483647/NaN/NaN'' \<and>
   decimal_int (sint (- 2147483648 :: 32 word)) = ''-2147483648''"
proof -
  have a: "format_position s =
     (if (valid_mask s AND 1 \<noteq> 0 \<and> x_position s = - 2147483648) \<or>
         (valid_mask s AND 2 \<noteq> 0 \<and> y_position s = - 2147483648) \<or>
         (valid_mask s AND 4 \<noteq> 0 \<and> z_position s = - 2147483648) \<or>
         (valid_mask s AND 8 \<noteq> 0 \<and> r_position s = - 2147483648)
      then None
      else Some (decimal_nat (unat (timestamp_ns s)) @ ''/'' @
                 (if valid_mask s AND 1 = 0 then ''NaN''
                  else decimal_int (sint (x_position s))) @ ''/'' @
                 (if valid_mask s AND 2 = 0 then ''NaN''
                  else decimal_int (sint (y_position s))) @ ''/'' @
                 (if valid_mask s AND 4 = 0 then ''NaN''
                  else decimal_int (sint (z_position s))) @ ''/'' @
                 (if valid_mask s AND 8 = 0 then ''NaN''
                  else decimal_int (sint (r_position s)))))"
    unfolding format_position_def format_field_decimal uint64_to_string_decimal
    by (simp split: if_splits)
  have b: "format_position
     \<lparr>timestamp_ns = 0, x_position = - 2147483648, y_position = 2147483647,
      z_position = 0, r_position = 0, valid_mask = 3\<rparr> = None"
    by (simp add: format_position_def format_field_def int32_to_string_def)
  have c: "format_position
     \<lparr>timestamp_ns = 0, x_position = - 2147483647, y_position = 2147483647,
      z_position = 0, r_position = 0, valid_mask = 3\<rparr> =
     Some ''0/-2147483647/2147483647/NaN/NaN''"
    by (simp add: format_position_def format_field_def int32_to_string_def
          uint64_to_string_def temp_digits.simps digit_char_def char_of_def)
  have d: "decimal_int (sint (- 2147483648 :: 32 word)) = ''-2147483648''"
    using decimal_int_min by simp
  show ?thesis by (intro conjI a b c d)
qed

end
